theory Spec2Isabelle
  imports Complex_Main "HOL-Library.Monad_Syntax"
begin

section \<open>Values of the host language\<close>

text \<open>
  The validator of \<^verbatim>\<open>src/unnamed/part_000\<close> receives data fetched from a remote store
  and tests it with JavaScript's truthiness, strict equality, \<^verbatim>\<open>typeof\<close> and \<^verbatim>\<open>in\<close>. The
  TypeScript types are erased at run time, so the model is over untyped values: the values
  that \<^verbatim>\<open>JSON.parse\<close> builds, and \<^verbatim>\<open>undefined\<close> for what is absent. A number is the exact
  rational value of its finite double. In \<open>Obj kvs\<close> the list \<open>kvs\<close> holds the own enumerable
  properties of the object, each name once, in the order in which \<^verbatim>\<open>for ... in\<close> enumerates
  them.
\<close>

datatype jsval =
    Undefined
  | Null
  | Bool bool
  | Num rat
  | Str string
  | Arr "jsval list"
  | Obj "(string \<times> jsval) list"

text \<open>Truthiness, as tested by \<^verbatim>\<open>!x\<close> and \<^verbatim>\<open>if (x)\<close>.\<close>

fun truthy :: "jsval \<Rightarrow> bool" where
  "truthy Undefined = False"
| "truthy Null = False"
| "truthy (Bool b) = b"
| "truthy (Num r) = (r \<noteq> 0)"
| "truthy (Str s) = (s \<noteq> [])"
| "truthy (Arr xs) = True"
| "truthy (Obj kvs) = True"

text \<open>The decimal name of an array index.\<close>

fun dec :: "nat \<Rightarrow> string" where
  "dec n = (if n < 10 then [''0123456789'' ! n]
            else dec (n div 10) @ [''0123456789'' ! (n mod 10)])"

declare dec.simps [simp del]

text \<open>
  The own enumerable properties that \<^verbatim>\<open>for (let key in v)\<close> visits, each with the value
  that \<^verbatim>\<open>v[key]\<close> reads: the entries of an object, the indices of an array, the indices of
  a string (each holding a one-character string), nothing for any other primitive.
\<close>

fun for_in :: "jsval \<Rightarrow> (string \<times> jsval) list" where
  "for_in (Obj kvs) = kvs"
| "for_in (Arr xs) = zip (map dec [0..<length xs]) xs"
| "for_in (Str s) = zip (map dec [0..<length s]) (map (\<lambda>c. Str [c]) s)"
| "for_in v = []"

text \<open>
  The property read \<^verbatim>\<open>v.k\<close>. It throws a TypeError, the result \<open>None\<close>, on \<^verbatim>\<open>undefined\<close> and
  \<^verbatim>\<open>null\<close>; on every other value it gives the own property when there is one, the length
  of an array or string, and \<^verbatim>\<open>undefined\<close> otherwise. None of the names that the validator
  reads is defined on a built-in prototype.
\<close>

fun get :: "jsval \<Rightarrow> string \<Rightarrow> jsval option" where
  "get Undefined k = None"
| "get Null k = None"
| "get v k = Some (case map_of (for_in v) k of
       Some w \<Rightarrow> w
     | None \<Rightarrow> (if k = ''length'' then
                  (case v of Arr xs \<Rightarrow> Num (of_nat (length xs))
                           | Str s \<Rightarrow> Num (of_nat (length s))
                           | _ \<Rightarrow> Undefined)
                else Undefined))"

text \<open>\<^verbatim>\<open>typeof v !== "object"\<close>: objects, arrays and \<^verbatim>\<open>null\<close> have type \<^verbatim>\<open>"object"\<close>.\<close>

fun typeof_not_object :: "jsval \<Rightarrow> bool" where
  "typeof_not_object Null = False"
| "typeof_not_object (Arr xs) = False"
| "typeof_not_object (Obj kvs) = False"
| "typeof_not_object v = True"

text \<open>
  \<^verbatim>\<open>k in v\<close>: a TypeError unless \<open>v\<close> is an object or an array; an array also has its
  \<^verbatim>\<open>length\<close>. The validator asks for \<^verbatim>\<open>url\<close>, \<^verbatim>\<open>text\<close>, \<^verbatim>\<open>label\<close>, \<^verbatim>\<open>src\<close> and \<^verbatim>\<open>alt\<close>,
  none of which is inherited from a built-in prototype.
\<close>

fun js_in :: "string \<Rightarrow> jsval \<Rightarrow> bool option" where
  "js_in k (Obj kvs) = Some (k \<in> set (map fst kvs))"
| "js_in k (Arr xs) = Some (k \<in> set (map dec [0..<length xs]) \<or> k = ''length'')"
| "js_in k v = None"

text \<open>\<^verbatim>\<open>Array.isArray\<close>.\<close>

fun isArray :: "jsval \<Rightarrow> bool" where
  "isArray (Arr xs) = True"
| "isArray v = False"

text \<open>
  What the validator takes from outside its own file. \<open>FieldTypes\<close> is the enumeration of
  field types imported from \<^verbatim>\<open>../fields/types\<close>, which is not among the sources.
  The two coercions of the language that the validator can reach on a value of an unexpected
  type are parameters as well, where they depend on the printing or parsing of numbers:
  \<open>ToString\<close> is the text that a template literal inserts for a number, an array or an
  object, and \<open>LessThanOne\<close> is the outcome of \<^verbatim>\<open>v < 1\<close> for a string, an array or an object,
  in both cases where the coercion returns at all.
\<close>

record env =
  FieldTypes :: "string list"
  ToString :: "jsval \<Rightarrow> string"
  LessThanOne :: "jsval \<Rightarrow> bool"

text \<open>\<^verbatim>\<open>FieldTypes.indexOf(v) === -1\<close>: \<^verbatim>\<open>indexOf\<close> compares with strict equality.\<close>

fun not_in_FieldTypes :: "env \<Rightarrow> jsval \<Rightarrow> bool" where
  "not_in_FieldTypes E (Str s) = (s \<notin> set (FieldTypes E))"
| "not_in_FieldTypes E v = True"

text \<open>
  Both coercions first turn an object or an array into a primitive value, by its
  \<^verbatim>\<open>valueOf\<close> and \<^verbatim>\<open>toString\<close> methods. The inherited \<^verbatim>\<open>valueOf\<close> gives back the object, which is
  no primitive, so what counts is \<^verbatim>\<open>toString\<close>. An object with an own property of that name
  has no callable \<^verbatim>\<open>toString\<close>, since no value here is a function, and the coercion throws a
  TypeError; any other object inherits one. The \<^verbatim>\<open>toString\<close> of an array joins the texts of
  its elements, each coerced in turn unless it is \<^verbatim>\<open>null\<close> or \<^verbatim>\<open>undefined\<close>.
\<close>

fun coercible :: "jsval \<Rightarrow> bool" where
  "coercible (Obj kvs) = (''toString'' \<notin> set (map fst kvs))"
| "coercible (Arr xs) = list_all coercible xs"
| "coercible v = True"

text \<open>The text that a template literal inserts for a value, where the coercion returns.\<close>

fun text_of :: "env \<Rightarrow> jsval \<Rightarrow> string" where
  "text_of E (Str s) = s"
| "text_of E Undefined = ''undefined''"
| "text_of E Null = ''null''"
| "text_of E (Bool b) = (if b then ''true'' else ''false'')"
| "text_of E v = ToString E v"

text \<open>The template literal: the text, or the TypeError of the coercion as \<open>None\<close>.\<close>

definition template :: "env \<Rightarrow> jsval \<Rightarrow> string option" where
  "template E v = (if coercible v then Some (text_of E v) else None)"

text \<open>
  \<^verbatim>\<open>v < 1\<close>: the operand becomes a number, \<^verbatim>\<open>true\<close> the number 1, \<^verbatim>\<open>false\<close> and \<^verbatim>\<open>null\<close> the
  number 0, and \<^verbatim>\<open>undefined\<close> the value NaN, which is below nothing.
\<close>

fun below_one :: "env \<Rightarrow> jsval \<Rightarrow> bool" where
  "below_one E (Num r) = (r < 1)"
| "below_one E (Bool b) = (\<not> b)"
| "below_one E Null = True"
| "below_one E Undefined = False"
| "below_one E v = LessThanOne E v"

text \<open>The comparison \<^verbatim>\<open>v < 1\<close>: its outcome, or the TypeError of the coercion as \<open>None\<close>.\<close>

definition lt_one :: "env \<Rightarrow> jsval \<Rightarrow> bool option" where
  "lt_one E v = (if coercible v then Some (below_one E v) else None)"

section \<open>Diagnostics\<close>

datatype Severity = Error | Warning

record FieldValidation =
  message :: string
  attribute :: string
  property :: "string option"
  severity :: "Severity option"

definition err :: "string \<Rightarrow> string \<Rightarrow> string \<Rightarrow> FieldValidation" where
  "err m a key = \<lparr>message = m, attribute = a, property = Some key, severity = Some Error\<rparr>"

definition warn :: "string \<Rightarrow> string \<Rightarrow> string \<Rightarrow> FieldValidation" where
  "warn m a key = \<lparr>message = m, attribute = a, property = Some key, severity = Some Warning\<rparr>"

definition component_diag :: "string \<Rightarrow> string \<Rightarrow> FieldValidation" where
  "component_diag m a = \<lparr>message = m, attribute = a, property = None, severity = None\<rparr>"

section \<open>The field validator\<close>

text \<open>
  \<^verbatim>\<open>validateField\<close> only ever appends to \<^verbatim>\<open>errors\<close>. Each block of the function is a
  definition that returns the diagnostics the block pushes, in order, or \<open>None\<close> when a
  property read in it throws; \<open>validateField\<close> runs the blocks in the order of the source
  and concatenates.
\<close>

text \<open>Lines 23 to 37.\<close>

definition type_check :: "env \<Rightarrow> jsval \<Rightarrow> string \<Rightarrow> FieldValidation list option" where
  "type_check E p key = do {
     t \<leftarrow> get p ''type'';
     if \<not> truthy t then Some [err ''Field type is required'' ''type'' key]
     else if not_in_FieldTypes E t then do {
       s \<leftarrow> template E t;
       Some [err (''Field type '' @ s @ '' is invalid'') ''type'' key]
     } else Some []
   }"

text \<open>Lines 38 to 45.\<close>

definition description_check :: "jsval \<Rightarrow> string \<Rightarrow> FieldValidation list option" where
  "description_check p key = do {
     d \<leftarrow> get p ''description'';
     Some (if \<not> truthy d then [warn ''Field description is required'' ''description'' key]
           else [])
   }"

text \<open>Lines 46 to 53.\<close>

definition name_check :: "jsval \<Rightarrow> string \<Rightarrow> FieldValidation list option" where
  "name_check p key = do {
     n \<leftarrow> get p ''name'';
     Some (if \<not> truthy n then [err ''Field name is required'' ''name'' key] else [])
   }"

text \<open>Lines 54 to 61.\<close>

definition default_check :: "jsval \<Rightarrow> string \<Rightarrow> FieldValidation list option" where
  "default_check p key = do {
     d \<leftarrow> get p ''default'';
     t \<leftarrow> get p ''type'';
     Some (if d = Undefined \<and> t \<noteq> Str ''array''
           then [warn ''Field default is required'' ''default'' key] else [])
   }"

text \<open>Lines 71 to 78.\<close>

definition required_check :: "jsval \<Rightarrow> string \<Rightarrow> FieldValidation list option" where
  "required_check rules key = do {
     r \<leftarrow> get rules ''required'';
     Some (if r \<noteq> Bool False \<and> r \<noteq> Bool True
           then [err ''Field rules.required is required'' ''rules.required'' key] else [])
   }"

text \<open>Lines 79 to 96.\<close>

definition content_check :: "jsval \<Rightarrow> string \<Rightarrow> FieldValidation list option" where
  "content_check rules key = do {
     c \<leftarrow> get rules ''content'';
     if truthy c then do {
       mn \<leftarrow> get c ''min'';
       r \<leftarrow> get rules ''required'';
       mx \<leftarrow> get c ''max'';
       Some ((if \<not> truthy mn \<and> r = Bool True
              then [warn ''Content rules must have a minimum length'' ''rules.content.min'' key]
              else [])
           @ (if \<not> truthy mx
              then [warn ''Content rules must have a maximum length'' ''rules.content.min'' key]
              else []))
     } else Some []
   }"

text \<open>Lines 97 to 106.\<close>

definition text_check :: "jsval \<Rightarrow> jsval \<Rightarrow> string \<Rightarrow> FieldValidation list option" where
  "text_check p rules key = do {
     t \<leftarrow> get p ''type'';
     if t = Str ''text'' then do {
       c \<leftarrow> get rules ''content'';
       Some (if \<not> truthy c
             then [err ''Content rules are required for text fields'' ''rules.content'' key]
             else [])
     } else Some []
   }"

text \<open>Lines 108 to 146, inside the branch for arrays.\<close>

definition array_content_check :: "env \<Rightarrow> jsval \<Rightarrow> string \<Rightarrow> FieldValidation list option" where
  "array_content_check E rules key = do {
     c \<leftarrow> get rules ''content'';
     if \<not> truthy c
     then Some [err ''Content rules are required for array fields'' ''rules.content'' key]
     else do {
       mn \<leftarrow> get c ''min'';
       e_min \<leftarrow>
         (if \<not> truthy mn
          then Some [err ''Array fields must have a minimum content length''
                       ''rules.content.min'' key]
          else do {
            below \<leftarrow> lt_one E mn;
            Some (if below
                  then [err ''Array fields must have a maximum content length''
                          ''rules.content.min'' key]
                  else [])
          });
       mx \<leftarrow> get c ''max'';
       e_max \<leftarrow>
         (if \<not> truthy mx
          then Some [err ''Content rules must have a maximum length'' ''rules.content.min'' key]
          else do {
            below \<leftarrow> lt_one E mx;
            Some (if below
                  then [err ''Content rules maximum length must be greater than 0''
                          ''rules.content.max'' key]
                  else [])
          });
       Some (e_min @ e_max)
     }
   }"

text \<open>Lines 155 to 169, inside the branch for arrays.\<close>

definition items_type_check :: "env \<Rightarrow> jsval \<Rightarrow> string \<Rightarrow> FieldValidation list option" where
  "items_type_check E items key = do {
     t \<leftarrow> get items ''type'';
     if \<not> truthy t then Some [err ''Type is required for array fields'' ''items.type'' key]
     else if not_in_FieldTypes E t then do {
       s \<leftarrow> template E t;
       Some [err (''Field type '' @ s @ '' is invalid'') ''items.type'' key]
     } else Some []
   }"

text \<open>
  The body of the branches for link, button and image that follows the test of
  \<^verbatim>\<open>property.default\<close>: the two keys that the default must have, each with its message and
  attribute.
\<close>

definition default_keys ::
  "jsval \<Rightarrow> string \<Rightarrow> string \<times> string \<times> string \<Rightarrow> string \<times> string \<times> string
    \<Rightarrow> FieldValidation list option" where
  "default_keys d key first second = do {
     a \<leftarrow> js_in (fst first) d;
     b \<leftarrow> js_in (fst second) d;
     Some ((if \<not> a then [err (fst (snd first)) (snd (snd first)) key] else [])
         @ (if \<not> b then [err (fst (snd second)) (snd (snd second)) key] else []))
   }"

text \<open>Lines 186 to 212.\<close>

definition link_check :: "jsval \<Rightarrow> string \<Rightarrow> FieldValidation list option" where
  "link_check p key = do {
     t \<leftarrow> get p ''type'';
     if t = Str ''link'' then do {
       d \<leftarrow> get p ''default'';
       if \<not> truthy d \<or> typeof_not_object d
       then Some [err ''Default is required for link fields'' ''default'' key]
       else default_keys d key
         (''url'', ''Default url is required for link fields'', ''image.default.url'')
         (''text'', ''Default text is required for link fields'', ''link.default.text'')
     } else Some []
   }"

text \<open>Lines 213 to 239.\<close>

definition button_check :: "jsval \<Rightarrow> string \<Rightarrow> FieldValidation list option" where
  "button_check p key = do {
     t \<leftarrow> get p ''type'';
     if t = Str ''button'' then do {
       d \<leftarrow> get p ''default'';
       if \<not> truthy d \<or> typeof_not_object d
       then Some [err ''Default is required for link fields'' ''default'' key]
       else default_keys d key
         (''url'', ''Default url is required for image fields'', ''image.default.url'')
         (''label'', ''Default label is required for image fields'', ''link.default.label'')
     } else Some []
   }"

text \<open>Lines 266 to 299, the dimensions of an image.\<close>

definition dimensions_check :: "jsval \<Rightarrow> string \<Rightarrow> FieldValidation list option" where
  "dimensions_check rules key = do {
     dims \<leftarrow> get rules ''dimensions'';
     if \<not> truthy dims
     then Some [err ''Dimensions are required for image fields'' ''rules.dimensions'' key]
     else do {
       mn \<leftarrow> get dims ''min'';
       if \<not> truthy mn
       then Some [err ''Minimum is required for image fields'' ''rules.dimensions.min'' key]
       else do {
         w \<leftarrow> get mn ''width'';
         h \<leftarrow> get mn ''height'';
         Some ((if \<not> truthy w
                then [err ''Minimum width is required for image fields''
                        ''rules.dimensions.width'' key]
                else [])
             @ (if \<not> truthy h
                then [err ''Minimum height is required for image fields''
                        ''rules.dimensions.height'' key]
                else []))
       }
     }
   }"

text \<open>Lines 240 to 300.\<close>

definition image_check :: "jsval \<Rightarrow> jsval \<Rightarrow> string \<Rightarrow> FieldValidation list option" where
  "image_check p rules key = do {
     t \<leftarrow> get p ''type'';
     if t = Str ''image'' then do {
       d \<leftarrow> get p ''default'';
       e_default \<leftarrow>
         (if \<not> truthy d \<or> typeof_not_object d
          then Some [err ''Default is required for image fields'' ''default'' key]
          else default_keys d key
            (''src'', ''Default src is required for image fields'', ''image.default.src'')
            (''alt'', ''Default alt is required for image fields'', ''image.default.alt''));
       e_dimensions \<leftarrow> dimensions_check rules key;
       Some (e_default @ e_dimensions)
     } else Some []
   }"

text \<open>
  The loop \<^verbatim>\<open>for (let key in o) errors = errors.concat(f(o[key], key))\<close> over the entries
  of \<open>o\<close>; a call that throws ends the loop.
\<close>

fun for_each ::
  "(string \<times> jsval) list \<Rightarrow> (jsval \<Rightarrow> string \<Rightarrow> FieldValidation list option)
    \<Rightarrow> FieldValidation list \<Rightarrow> FieldValidation list option" where
  "for_each [] f errors = Some errors"
| "for_each (kv # kvs) f errors = do {
     ds \<leftarrow> f (snd kv) (fst kv);
     for_each kvs f (errors @ ds)
   }"

lemma for_each_cong [fundef_cong]:
  assumes "kvs = kvs'" and "errors = errors'"
    and "\<And>k v. (k, v) \<in> set kvs' \<Longrightarrow> f v k = g v k"
  shows "for_each kvs f errors = for_each kvs' g errors'"
  unfolding assms(1,2) using assms(3)
proof (induction kvs' arbitrary: errors')
  case Nil
  show ?case by simp
next
  case (Cons kv kvs')
  have "f (snd kv) (fst kv) = g (snd kv) (fst kv)"
    using Cons.prems [of "fst kv" "snd kv"] by simp
  moreover have "for_each kvs' f es = for_each kvs' g es" for es
    using Cons.IH Cons.prems by simp
  ultimately show ?case by simp
qed

text \<open>Termination of the recursion: a nested field is a proper part of its parent.\<close>

lemma dec_digits: "set (dec n) \<subseteq> set ''0123456789''"
proof (induction n rule: dec.induct)
  case (1 n)
  have "n mod 10 < 10" by simp
  then have m: "''0123456789'' ! (n mod 10) \<in> set ''0123456789''"
    using nth_mem [of "n mod 10" "''0123456789''"] by simp
  show ?case
  proof (cases "n < 10")
    case True
    then have "''0123456789'' ! n \<in> set ''0123456789''"
      using nth_mem [of n "''0123456789''"] by simp
    with True show ?thesis by (subst dec.simps) simp
  next
    case False
    with 1 m show ?thesis by (subst dec.simps) simp
  qed
qed

lemma dec_not_items: "dec n \<noteq> ''items''"
proof
  assume "dec n = ''items''"
  then have "CHR ''i'' \<in> set (dec n)" by simp
  with dec_digits [of n] show False by auto
qed

lemma items_not_index: "map_of (zip (map dec ns) ys) ''items'' = None"
proof -
  have "''items'' \<notin> fst ` set (zip (map dec ns) ys)"
  proof
    assume "''items'' \<in> fst ` set (zip (map dec ns) ys)"
    then obtain y where "(''items'', y) \<in> set (zip (map dec ns) ys)" by auto
    then have "''items'' \<in> set (map dec ns)" by (rule set_zip_leftD)
    then obtain n where "dec n = ''items''" by auto
    then show False using dec_not_items [of n] by simp
  qed
  then show ?thesis by (simp add: map_of_eq_None_iff)
qed

lemma size_entry: "(k, v) \<in> set kvs \<Longrightarrow> size v < size (Obj kvs)"
  by (induction kvs) auto

lemma size_element: "v \<in> set xs \<Longrightarrow> size v < size (Arr xs)"
  by (induction xs) auto

lemma size_for_in: "(k, v) \<in> set (for_in q) \<Longrightarrow> size v \<le> size q"
proof (cases q)
  case (Arr xs)
  assume "(k, v) \<in> set (for_in q)"
  with Arr have "v \<in> set xs" by (auto dest: set_zip_rightD)
  with Arr size_element [of v xs] show ?thesis by simp
next
  case (Obj kvs)
  assume "(k, v) \<in> set (for_in q)"
  with Obj size_entry [of k v kvs] show ?thesis by simp
next
  case (Str s)
  assume "(k, v) \<in> set (for_in q)"
  with Str have "v \<in> set (map (\<lambda>c. Str [c]) s)" by (auto dest: set_zip_rightD)
  then show ?thesis by auto
qed auto

lemma size_get: "get q k = Some w \<Longrightarrow> size w \<le> size q"
proof (cases "map_of (for_in q) k")
  case None
  assume "get q k = Some w"
  with None have "size w = 0"
    by (cases q) (auto simp del: for_in.simps split: if_splits)
  then show ?thesis by simp
next
  case (Some u)
  assume g: "get q k = Some w"
  with Some have "w = u" by (cases q) (auto simp del: for_in.simps)
  with Some have "(k, w) \<in> set (for_in q)" by (simp add: map_of_SomeD)
  then show ?thesis by (rule size_for_in)
qed

lemma size_get_items:
  assumes "get p ''items'' = Some items" and "truthy items"
  shows "size items < size p"
proof (cases p)
  case (Obj kvs)
  with assms have "(''items'', items) \<in> set kvs"
    by (auto split: option.splits dest: map_of_SomeD)
  with Obj show ?thesis using size_entry by simp
next
  case (Arr xs)
  with assms items_not_index [of "[0..<length xs]" xs] show ?thesis by simp
next
  case (Str s)
  with assms items_not_index [of "[0..<length s]" "map (\<lambda>c. Str [c]) s"] show ?thesis
    by simp
qed (use assms in auto)

lemma size_nested:
  assumes "get p ''items'' = Some items" and "truthy items"
    and "get items ''properties'' = Some props" and "(k, v) \<in> set (for_in props)"
  shows "size v < size p"
proof -
  have "size v \<le> size props" using assms(4) by (rule size_for_in)
  also have "size props \<le> size items" using assms(3) by (rule size_get)
  also have "size items < size p" using assms(1,2) by (rule size_get_items)
  finally show ?thesis .
qed

text \<open>Lines 18 to 304.\<close>

function validateField :: "env \<Rightarrow> jsval \<Rightarrow> string \<Rightarrow> FieldValidation list option" where
  "validateField E p key = do {
     e_type \<leftarrow> type_check E p key;
     e_description \<leftarrow> description_check p key;
     e_name \<leftarrow> name_check p key;
     e_default \<leftarrow> default_check p key;
     rules \<leftarrow> get p ''rules'';
     if \<not> truthy rules
     then Some (e_type @ e_description @ e_name @ e_default
                @ [warn ''Field rules are required'' ''rules'' key])
     else do {
       e_required \<leftarrow> required_check rules key;
       e_content \<leftarrow> content_check rules key;
       e_text \<leftarrow> text_check p rules key;
       t \<leftarrow> get p ''type'';
       e_array \<leftarrow>
         (if t = Str ''array'' then do {
            e_array_content \<leftarrow> array_content_check E rules key;
            items \<leftarrow> get p ''items'';
            e_items \<leftarrow>
              (if \<not> truthy items
               then Some [err ''Items are required for array fields'' ''items'' key]
               else do {
                 e_items_type \<leftarrow> items_type_check E items key;
                 props \<leftarrow> get items ''properties'';
                 if \<not> truthy props
                 then Some (e_items_type
                            @ [err ''Properties are required for array fields''
                                 ''items.properties'' key])
                 else for_each (for_in props) (\<lambda>v k. validateField E v k) e_items_type
               });
            Some (e_array_content @ e_items)
          } else Some []);
       e_link \<leftarrow> link_check p key;
       e_button \<leftarrow> button_check p key;
       e_image \<leftarrow> image_check p rules key;
       Some (e_type @ e_description @ e_name @ e_default @ e_required @ e_content @ e_text
             @ e_array @ e_link @ e_button @ e_image)
     }
   }"
  by pat_completeness auto
termination
proof (relation "measure (\<lambda>(E, p, key). size p)")
  show "wf (measure (\<lambda>(E, p, key). size p))" by simp
next
  fix E :: env and p items props v :: jsval and k :: string
  assume "get p ''items'' = Some items" and "\<not> \<not> truthy items"
    and "get items ''properties'' = Some props" and "(k, v) \<in> set (for_in props)"
  then have "size v < size p" using size_nested [of p items props k v] by simp
  then show "((E, v, k), (E, p, key)) \<in> measure (\<lambda>(E, p, key). size p)" for key
    by simp
qed

declare validateField.simps [simp del]

text \<open>Lines 306 to 337.\<close>

definition validateModule :: "env \<Rightarrow> jsval \<Rightarrow> FieldValidation list option" where
  "validateModule E component = do {
     code \<leftarrow> get component ''code'';
     title \<leftarrow> get component ''title'';
     tags \<leftarrow> get component ''tags'';
     props \<leftarrow> get component ''properties'';
     let errors =
         (if \<not> truthy code then [component_diag ''Component code is required'' ''code''] else [])
       @ (if \<not> truthy title then [component_diag ''Component title is required'' ''title'']
          else [])
       @ (if \<not> truthy tags then [component_diag ''Component tags are required'' ''tags'']
          else if \<not> isArray tags
          then [component_diag ''Component tags must be an array'' ''tags'']
          else []);
     if \<not> truthy props
     then Some (errors @ [component_diag ''Component properties are required'' ''properties''])
     else for_each (for_in props) (\<lambda>v k. validateField E v k) errors
   }"

section \<open>The earlier iteration of the validator\<close>

text \<open>
  \<^verbatim>\<open>src/src/validate/index.ts\<close> holds an earlier iteration of the same module. Its
  \<^verbatim>\<open>validateField\<close> differs from the one above in four blocks: it warns of a missing default
  whenever the default is falsy, also for arrays; it reports \<^verbatim>\<open>rules.required\<close> whenever the
  flag is falsy, also for \<^verbatim>\<open>false\<close>; it warns of a missing minimum whatever the flag; and it
  has no branch for links and buttons and no test of the keys of the default of an image. The
  other blocks are the same, line for line. The theorems below are about the later iteration;
  this model records what the earlier one does.
\<close>

text \<open>Lines 24 to 26 of the earlier file.\<close>

definition index_default_check :: "jsval \<Rightarrow> string \<Rightarrow> FieldValidation list option" where
  "index_default_check p key = do {
     d \<leftarrow> get p ''default'';
     Some (if \<not> truthy d then [warn ''Field default is required'' ''default'' key] else [])
   }"

text \<open>Lines 31 to 33 of the earlier file.\<close>

definition index_required_check :: "jsval \<Rightarrow> string \<Rightarrow> FieldValidation list option" where
  "index_required_check rules key = do {
     r \<leftarrow> get rules ''required'';
     Some (if \<not> truthy r
           then [err ''Field rules.required is required'' ''rules.required'' key] else [])
   }"

text \<open>Lines 34 to 42 of the earlier file.\<close>

definition index_content_check :: "jsval \<Rightarrow> string \<Rightarrow> FieldValidation list option" where
  "index_content_check rules key = do {
     c \<leftarrow> get rules ''content'';
     if truthy c then do {
       mn \<leftarrow> get c ''min'';
       mx \<leftarrow> get c ''max'';
       Some ((if \<not> truthy mn
              then [warn ''Content rules must have a minimum length'' ''rules.content.min'' key]
              else [])
           @ (if \<not> truthy mx
              then [warn ''Content rules must have a maximum length'' ''rules.content.min'' key]
              else []))
     } else Some []
   }"

text \<open>Lines 80 to 98 of the earlier file.\<close>

definition index_image_check :: "jsval \<Rightarrow> jsval \<Rightarrow> string \<Rightarrow> FieldValidation list option" where
  "index_image_check p rules key = do {
     t \<leftarrow> get p ''type'';
     if t = Str ''image'' then do {
       d \<leftarrow> get p ''default'';
       e_dimensions \<leftarrow> dimensions_check rules key;
       Some ((if \<not> truthy d
              then [err ''Default is required for image fields'' ''default'' key] else [])
           @ e_dimensions)
     } else Some []
   }"

text \<open>Lines 8 to 102 of the earlier file.\<close>

function validateField_index :: "env \<Rightarrow> jsval \<Rightarrow> string \<Rightarrow> FieldValidation list option" where
  "validateField_index E p key = do {
     e_type \<leftarrow> type_check E p key;
     e_description \<leftarrow> description_check p key;
     e_name \<leftarrow> name_check p key;
     e_default \<leftarrow> index_default_check p key;
     rules \<leftarrow> get p ''rules'';
     if \<not> truthy rules
     then Some (e_type @ e_description @ e_name @ e_default
                @ [warn ''Field rules are required'' ''rules'' key])
     else do {
       e_required \<leftarrow> index_required_check rules key;
       e_content \<leftarrow> index_content_check rules key;
       e_text \<leftarrow> text_check p rules key;
       t \<leftarrow> get p ''type'';
       e_array \<leftarrow>
         (if t = Str ''array'' then do {
            e_array_content \<leftarrow> array_content_check E rules key;
            items \<leftarrow> get p ''items'';
            e_items \<leftarrow>
              (if \<not> truthy items
               then Some [err ''Items are required for array fields'' ''items'' key]
               else do {
                 e_items_type \<leftarrow> items_type_check E items key;
                 props \<leftarrow> get items ''properties'';
                 if \<not> truthy props
                 then Some (e_items_type
                            @ [err ''Properties are required for array fields''
                                 ''items.properties'' key])
                 else for_each (for_in props) (\<lambda>v k. validateField_index E v k) e_items_type
               });
            Some (e_array_content @ e_items)
          } else Some []);
       e_image \<leftarrow> index_image_check p rules key;
       Some (e_type @ e_description @ e_name @ e_default @ e_required @ e_content @ e_text
             @ e_array @ e_image)
     }
   }"
  by pat_completeness auto
termination
proof (relation "measure (\<lambda>(E, p, key). size p)")
  show "wf (measure (\<lambda>(E, p, key). size p))" by simp
next
  fix E :: env and p items props v :: jsval and k :: string
  assume "get p ''items'' = Some items" and "\<not> \<not> truthy items"
    and "get items ''properties'' = Some props" and "(k, v) \<in> set (for_in props)"
  then have "size v < size p" using size_nested [of p items props k v] by simp
  then show "((E, v, k), (E, p, key)) \<in> measure (\<lambda>(E, p, key). size p)" for key
    by simp
qed

declare validateField_index.simps [simp del]

section \<open>Trees of properties\<close>

text \<open>
  \<open>field\<close> is the property read where it cannot throw. \<open>nested_fields\<close> are the entries
  of \<^verbatim>\<open>items.properties\<close> that \<open>validateField\<close> goes into: the guards of lines 63, 107,
  147 and 170 on the way to the loop of line 178.
\<close>

definition field :: "jsval \<Rightarrow> string \<Rightarrow> jsval" where
  "field v k = (case get v k of Some w \<Rightarrow> w | None \<Rightarrow> Undefined)"

definition nested_fields :: "jsval \<Rightarrow> (string \<times> jsval) list" where
  "nested_fields p =
     (if truthy (field p ''rules'') \<and> field p ''type'' = Str ''array''
         \<and> truthy (field p ''items'') \<and> truthy (field (field p ''items'') ''properties'')
      then for_in (field (field p ''items'') ''properties'') else [])"

lemma get_field: "truthy v \<Longrightarrow> get v k = Some (field v k)"
  by (cases v) (simp_all add: field_def)

lemma get_field_node: "v \<noteq> Undefined \<Longrightarrow> v \<noteq> Null \<Longrightarrow> get v k = Some (field v k)"
  by (cases v) (simp_all add: field_def)

lemma get_SomeD: "get v k = Some w \<Longrightarrow> v \<noteq> Undefined \<and> v \<noteq> Null \<and> w = field v k"
  by (cases v) (simp_all add: field_def)

lemma size_nested_fields: "(k, v) \<in> set (nested_fields p) \<Longrightarrow> size v < size p"
proof -
  assume a: "(k, v) \<in> set (nested_fields p)"
  let ?items = "field p ''items''"
  let ?props = "field ?items ''properties''"
  from a have c: "truthy ?items" "truthy ?props" "(k, v) \<in> set (for_in ?props)"
    by (auto simp: nested_fields_def split: if_splits)
  have "p \<noteq> Undefined" "p \<noteq> Null" using c(1) by (auto simp: field_def)
  then have "get p ''items'' = Some ?items" by (rule get_field_node)
  moreover have "get ?items ''properties'' = Some ?props" using c(1) by (rule get_field)
  ultimately show ?thesis using c size_nested by blast
qed

text \<open>
  The values of a node that the validator coerces can be coerced: the type of line 32; and in
  an array field with rules, the minimum and maximum of lines 123 and 138 where there is a
  content object, and the type of the items of line 164 where there are items. A value that
  cannot be coerced is an object or an array, so it is truthy, it is no string of
  \<open>FieldTypes\<close>, and the coercion is reached.
\<close>

definition content_coercible :: "jsval \<Rightarrow> bool" where
  "content_coercible rules =
     (truthy (field rules ''content'') \<longrightarrow>
        coercible (field (field rules ''content'') ''min'')
        \<and> coercible (field (field rules ''content'') ''max''))"

definition items_coercible :: "jsval \<Rightarrow> bool" where
  "items_coercible p =
     (truthy (field p ''items'') \<longrightarrow> coercible (field (field p ''items'') ''type''))"

definition coercions_return :: "jsval \<Rightarrow> bool" where
  "coercions_return p =
     (coercible (field p ''type'')
      \<and> (truthy (field p ''rules'') \<and> field p ''type'' = Str ''array'' \<longrightarrow>
           content_coercible (field p ''rules'') \<and> items_coercible p))"

text \<open>
  A tree of properties: a value other than \<^verbatim>\<open>undefined\<close> and \<^verbatim>\<open>null\<close> whose coerced values can
  be coerced and whose nested fields, the nodes that the validator visits below it, are trees
  in turn. A node may lack any attribute or hold a value of any type in its place.
\<close>

function property_tree :: "jsval \<Rightarrow> bool" where
  "property_tree p =
     (p \<noteq> Undefined \<and> p \<noteq> Null \<and> coercions_return p
      \<and> list_all (\<lambda>kv. property_tree (snd kv)) (nested_fields p))"
  by pat_completeness auto
termination
proof (relation "measure size")
  show "wf (measure size)" by simp
next
  fix p :: jsval and kv :: "string \<times> jsval"
  assume "kv \<in> set (nested_fields p)"
  then show "(snd kv, p) \<in> measure size"
    using size_nested_fields [of "fst kv" "snd kv" p] by simp
qed

declare property_tree.simps [simp del]

text \<open>
  The results for the nested fields, concatenated in the order of the loop; a nested field
  on which the validator throws contributes nothing.
\<close>

definition nested_result :: "env \<Rightarrow> string \<times> jsval \<Rightarrow> FieldValidation list" where
  "nested_result E kv = (case validateField E (snd kv) (fst kv) of Some ds \<Rightarrow> ds | None \<Rightarrow> [])"

definition nested_diags :: "env \<Rightarrow> jsval \<Rightarrow> FieldValidation list" where
  "nested_diags E p = concat (map (nested_result E) (nested_fields p))"

text \<open>
  The diagnostics that \<open>validateField\<close> pushes for a node itself: the validator with the
  loop over the nested properties left out.
\<close>

definition items_node_check :: "env \<Rightarrow> jsval \<Rightarrow> string \<Rightarrow> FieldValidation list option" where
  "items_node_check E p key = do {
     items \<leftarrow> get p ''items'';
     if \<not> truthy items
     then Some [err ''Items are required for array fields'' ''items'' key]
     else do {
       e_items_type \<leftarrow> items_type_check E items key;
       props \<leftarrow> get items ''properties'';
       Some (if \<not> truthy props
             then e_items_type
                  @ [err ''Properties are required for array fields'' ''items.properties'' key]
             else e_items_type)
     }
   }"

definition array_node_check ::
  "env \<Rightarrow> jsval \<Rightarrow> jsval \<Rightarrow> string \<Rightarrow> FieldValidation list option" where
  "array_node_check E p rules key = do {
     t \<leftarrow> get p ''type'';
     if t = Str ''array'' then do {
       e_array_content \<leftarrow> array_content_check E rules key;
       e_items \<leftarrow> items_node_check E p key;
       Some (e_array_content @ e_items)
     } else Some []
   }"

definition node_diags :: "env \<Rightarrow> jsval \<Rightarrow> string \<Rightarrow> FieldValidation list option" where
  "node_diags E p key = do {
     e_type \<leftarrow> type_check E p key;
     e_description \<leftarrow> description_check p key;
     e_name \<leftarrow> name_check p key;
     e_default \<leftarrow> default_check p key;
     rules \<leftarrow> get p ''rules'';
     if \<not> truthy rules
     then Some (e_type @ e_description @ e_name @ e_default
                @ [warn ''Field rules are required'' ''rules'' key])
     else do {
       e_required \<leftarrow> required_check rules key;
       e_content \<leftarrow> content_check rules key;
       e_text \<leftarrow> text_check p rules key;
       e_array \<leftarrow> array_node_check E p rules key;
       e_link \<leftarrow> link_check p key;
       e_button \<leftarrow> button_check p key;
       e_image \<leftarrow> image_check p rules key;
       Some (e_type @ e_description @ e_name @ e_default @ e_required @ e_content @ e_text
             @ e_array @ e_link @ e_button @ e_image)
     }
   }"

section \<open>Fully populated components\<close>

text \<open>
  What it is for a component to be valid and fully populated. A value is present when it is
  truthy: an empty string or a zero count as absent, as they do for the validator. A type is
  valid when it is a non-empty string of \<open>FieldTypes\<close>. The default of a link, button or
  image is an object with the two keys of its type. A content object, where there is one, has
  its maximum, and its minimum when the field is required; text and array fields have one, and
  in an array field both bounds are numbers of at least one. An image has its dimensions with
  a minimal width and height. An array has its items with a valid type and properties, and
  every nested field is fully populated in turn.
\<close>

definition valid_type :: "env \<Rightarrow> jsval \<Rightarrow> bool" where
  "valid_type E t = (truthy t \<and> \<not> not_in_FieldTypes E t)"

definition default_with :: "jsval \<Rightarrow> string \<Rightarrow> string \<Rightarrow> bool" where
  "default_with d k1 k2 =
     (truthy d \<and> \<not> typeof_not_object d \<and> js_in k1 d = Some True \<and> js_in k2 d = Some True)"

fun at_least_one :: "jsval \<Rightarrow> bool" where
  "at_least_one (Num r) = (1 \<le> r)"
| "at_least_one v = False"

function fully_populated :: "env \<Rightarrow> jsval \<Rightarrow> bool" where
  "fully_populated E p =
     (let t = field p ''type''; d = field p ''default''; rules = field p ''rules'';
          content = field rules ''content''; dimensions = field rules ''dimensions'';
          items = field p ''items''
      in valid_type E t \<and> truthy (field p ''name'') \<and> truthy (field p ''description'')
       \<and> truthy rules
       \<and> (field rules ''required'' = Bool True \<or> field rules ''required'' = Bool False)
       \<and> (t \<noteq> Str ''array'' \<longrightarrow> d \<noteq> Undefined)
       \<and> (truthy content \<longrightarrow> truthy (field content ''max'')
            \<and> (field rules ''required'' = Bool True \<longrightarrow> truthy (field content ''min'')))
       \<and> (t = Str ''text'' \<longrightarrow> truthy content)
       \<and> (t = Str ''link'' \<longrightarrow> default_with d ''url'' ''text'')
       \<and> (t = Str ''button'' \<longrightarrow> default_with d ''url'' ''label'')
       \<and> (t = Str ''image'' \<longrightarrow> default_with d ''src'' ''alt'' \<and> truthy dimensions
            \<and> truthy (field dimensions ''min'')
            \<and> truthy (field (field dimensions ''min'') ''width'')
            \<and> truthy (field (field dimensions ''min'') ''height''))
       \<and> (t = Str ''array'' \<longrightarrow> truthy content \<and> at_least_one (field content ''min'')
            \<and> at_least_one (field content ''max'') \<and> truthy items
            \<and> valid_type E (field items ''type'') \<and> truthy (field items ''properties''))
       \<and> list_all (\<lambda>kv. fully_populated E (snd kv)) (nested_fields p))"
  by pat_completeness auto
termination
proof (relation "measure (\<lambda>(E, p). size p)")
  show "wf (measure (\<lambda>(E, p). size p))" by simp
next
  fix E :: env and p :: jsval and kv :: "string \<times> jsval"
  assume "kv \<in> set (nested_fields p)"
  then show "((E, snd kv), (E, p)) \<in> measure (\<lambda>(E, p). size p)"
    using size_nested_fields [of "fst kv" "snd kv" p] by simp
qed

declare fully_populated.simps [simp del]

definition valid_component :: "env \<Rightarrow> jsval \<Rightarrow> bool" where
  "valid_component E component =
     (truthy (field component ''code'') \<and> truthy (field component ''title'')
      \<and> isArray (field component ''tags'') \<and> truthy (field component ''properties'')
      \<and> for_in (field component ''properties'') \<noteq> []
      \<and> list_all (\<lambda>kv. fully_populated E (snd kv)) (for_in (field component ''properties'')))"

section \<open>The attributes of a block\<close>

text \<open>
  \<open>emits key S ds\<close>: every diagnostic of \<open>ds\<close> is for the property \<open>key\<close> and has an
  attribute and a severity paired in \<open>S\<close>.
\<close>

definition emits :: "string \<Rightarrow> (string \<times> Severity) set \<Rightarrow> FieldValidation list \<Rightarrow> bool" where
  "emits key S ds =
     (\<forall>d\<in>set ds. property d = Some key \<and> (\<exists>s. severity d = Some s \<and> (attribute d, s) \<in> S))"

section \<open>Examples\<close>

text \<open>
  Of the values whose coercion is a parameter, the examples coerce plain objects only: the
  text of a plain object is \<^verbatim>\<open>[object Object]\<close>, which is no number, so that it is not
  below 1.
\<close>

definition example_env :: env where
  "example_env = \<lparr>FieldTypes = [''text'', ''array'', ''image'', ''link'', ''button''],
     ToString = (\<lambda>v. ''[object Object]''), LessThanOne = (\<lambda>v. False)\<rparr>"

definition malformed_array :: jsval where
  "malformed_array = Obj [(''type'', Str ''array''), (''rules'', Obj []),
     (''items'', Obj [(''properties'', Obj [(''x'', Obj []), (''y'', Obj [(''type'', Obj [])])])])]"

definition array_of_null :: jsval where
  "array_of_null = Obj [(''type'', Str ''array''), (''rules'', Obj []),
     (''items'', Obj [(''properties'', Obj [(''x'', Null)])])]"

definition typed_by_object :: jsval where
  "typed_by_object = Obj [(''type'', Obj [(''toString'', Num 1)])]"

definition optional_text :: jsval where
  "optional_text = Obj [(''type'', Str ''text''), (''name'', Str ''Title''),
     (''description'', Str ''The title''), (''default'', Str ''''),
     (''rules'', Obj [(''required'', Bool False),
        (''content'', Obj [(''min'', Num 1), (''max'', Num 50)])])]"

definition bare_array :: jsval where
  "bare_array = Obj [(''type'', Str ''array''), (''name'', Str ''Cards''),
     (''description'', Str ''The cards''),
     (''rules'', Obj [(''required'', Bool True),
        (''content'', Obj [(''min'', Num 1), (''max'', Num 4)])]),
     (''items'', Obj [(''type'', Str ''object''), (''properties'', Obj [])])]"

definition link_without_default :: jsval where
  "link_without_default = Obj [(''type'', Str ''link''), (''name'', Str ''More''),
     (''description'', Str ''Read more''), (''rules'', Obj [(''required'', Bool True)])]"

definition array_with_content :: "jsval \<Rightarrow> jsval" where
  "array_with_content c = Obj [(''type'', Str ''array''), (''name'', Str ''Cards''),
     (''description'', Str ''The cards''),
     (''rules'', Obj [(''required'', Bool False), (''content'', c)]),
     (''items'', Obj [(''type'', Str ''text''), (''properties'', Obj [])])]"

definition array_without_rules :: jsval where
  "array_without_rules = Obj [(''type'', Str ''array''), (''name'', Str ''Cards''),
     (''description'', Str ''The cards''),
     (''items'', Obj [(''type'', Str ''text''),
        (''properties'', Obj [(''title'', Obj [(''name'', Str ''Title'')])])])]"

definition array_of_untyped :: jsval where
  "array_of_untyped = Obj [(''type'', Str ''array''), (''name'', Str ''Cards''),
     (''description'', Str ''The cards''),
     (''rules'', Obj [(''required'', Bool True),
        (''content'', Obj [(''min'', Num 1), (''max'', Num 4)])]),
     (''items'', Obj [(''type'', Str ''text''),
        (''properties'', Obj [(''title'', Obj [(''name'', Str ''Title'')])])])]"

definition valid_text :: jsval where
  "valid_text = Obj [(''type'', Str ''text''), (''name'', Str ''Title''),
     (''description'', Str ''The title''), (''default'', Str []),
     (''rules'', Obj [(''required'', Bool False),
        (''content'', Obj [(''min'', Num 1), (''max'', Num 50)])])]"

definition valid_image :: jsval where
  "valid_image = Obj [(''type'', Str ''image''), (''name'', Str ''Picture''),
     (''description'', Str ''The picture''),
     (''default'', Obj [(''src'', Str ''a.png''), (''alt'', Str [])]),
     (''rules'', Obj [(''required'', Bool True),
        (''dimensions'', Obj [(''min'', Obj [(''width'', Num 100), (''height'', Num 50)])])])]"

definition valid_link :: jsval where
  "valid_link = Obj [(''type'', Str ''link''), (''name'', Str ''More''),
     (''description'', Str ''Read more''),
     (''default'', Obj [(''url'', Str ''/''), (''text'', Str ''More'')]),
     (''rules'', Obj [(''required'', Bool False)])]"

definition valid_button :: jsval where
  "valid_button = Obj [(''type'', Str ''button''), (''name'', Str ''Go''),
     (''description'', Str ''The call to action''),
     (''default'', Obj [(''url'', Str ''/''), (''label'', Str ''Go'')]),
     (''rules'', Obj [(''required'', Bool True)])]"

definition valid_array :: jsval where
  "valid_array = Obj [(''type'', Str ''array''), (''name'', Str ''Cards''),
     (''description'', Str ''The cards''),
     (''rules'', Obj [(''required'', Bool True),
        (''content'', Obj [(''min'', Num 1), (''max'', Num 4)])]),
     (''items'', Obj [(''type'', Str ''text''),
        (''properties'', Obj [(''title'', valid_text), (''picture'', valid_image)])])]"

definition valid_example :: jsval where
  "valid_example = Obj [(''code'', Str ''<div></div>''), (''title'', Str ''Hero''),
     (''tags'', Arr [Str ''hero'']),
     (''properties'', Obj [(''title'', valid_text), (''cards'', valid_array),
        (''more'', valid_link), (''go'', valid_button)])]"

section \<open>The structure of a result\<close>

subsection \<open>The loop and the node\<close>

lemma property_tree_unfold:
  "property_tree p =
     (p \<noteq> Undefined \<and> p \<noteq> Null \<and> coercions_return p
      \<and> list_all (property_tree \<circ> snd) (nested_fields p))"
  unfolding comp_def by (rule property_tree.simps)

lemma for_each_Some:
  "list_all (\<lambda>kv. f (snd kv) (fst kv) \<noteq> None) kvs \<Longrightarrow>
   for_each kvs f errors =
     Some (errors @ concat (map (\<lambda>kv. case f (snd kv) (fst kv) of Some ds \<Rightarrow> ds | None \<Rightarrow> []) kvs))"
  by (induction kvs arbitrary: errors) auto

lemma for_each_None:
  "\<not> list_all (\<lambda>kv. f (snd kv) (fst kv) \<noteq> None) kvs \<Longrightarrow> for_each kvs f errors = None"
  by (induction kvs arbitrary: errors) (auto split: bind_splits)


lemma for_each_Nil: "for_each [] f = Some"
  by (rule ext) simp

lemma for_each_append:
  "for_each kvs f (a @ b) = map_option (\<lambda>r. a @ r) (for_each kvs f b)"
  by (induction kvs arbitrary: b) (auto split: bind_splits)

lemma not_coercible: "\<not> coercible v \<Longrightarrow> truthy v \<and> not_in_FieldTypes E v"
  by (cases v) simp_all

lemma type_check_Some:
  "p \<noteq> Undefined \<Longrightarrow> p \<noteq> Null \<Longrightarrow> coercible (field p ''type'')
   \<Longrightarrow> \<exists>ds. type_check E p key = Some ds"
  by (simp add: type_check_def get_field_node template_def)

lemma type_check_None:
  "p \<noteq> Undefined \<Longrightarrow> p \<noteq> Null \<Longrightarrow> \<not> coercible (field p ''type'')
   \<Longrightarrow> type_check E p key = None"
  using not_coercible [of "field p ''type''" E]
  by (simp add: type_check_def get_field_node template_def)

lemma link_check_array: "get p ''type'' = Some (Str ''array'') \<Longrightarrow> link_check p key = Some []"
  by (simp add: link_check_def)

lemma button_check_array: "get p ''type'' = Some (Str ''array'') \<Longrightarrow> button_check p key = Some []"
  by (simp add: button_check_def)

lemma image_check_array: "get p ''type'' = Some (Str ''array'') \<Longrightarrow> image_check p rules key = Some []"
  by (simp add: image_check_def)

lemma validateField_node:
  "validateField E p key =
     node_diags E p key \<bind> for_each (nested_fields p) (\<lambda>v k. validateField E v k)"
proof (cases "get p ''rules''")
  case None
  then show ?thesis
    by (subst validateField.simps) (simp add: node_diags_def)
next
  case (Some rules)
  then have p: "p \<noteq> Undefined" "p \<noteq> Null" and r: "rules = field p ''rules''"
    using get_SomeD by blast+
  have g: "get p k = Some (field p k)" for k using p by (rule get_field_node)
  show ?thesis
  proof (cases "truthy (field p ''rules'') \<and> field p ''type'' = Str ''array''
         \<and> truthy (field p ''items'') \<and> truthy (field (field p ''items'') ''properties'')")
    case False
    then have n: "nested_fields p = []" unfolding nested_fields_def by (simp only: if_False)
    have "validateField E p key = node_diags E p key"
      using False
      by (subst validateField.simps) (auto simp add: node_diags_def array_node_check_def items_node_check_def g get_field cong: if_cong Option.bind_cong)
    then show ?thesis by (simp add: n for_each_Nil)
  next
    case True
    then have n: "nested_fields p = for_in (field (field p ''items'') ''properties'')"
      by (simp add: nested_fields_def)
    from True have gi: "get (field p ''items'') k = Some (field (field p ''items'') k)" for k
      by (simp add: get_field)
    have a: "get p ''type'' = Some (Str ''array'')" using g [of "''type''"] True by simp
    show ?thesis
      using True
      apply (subst validateField.simps)
      apply (simp add: node_diags_def array_node_check_def items_node_check_def n g gi link_check_array [OF a] button_check_array [OF a] image_check_array [OF a])
      apply (auto split: bind_splits simp: for_each_append)
      done
  qed
qed


subsection \<open>Every block returns on a node\<close>

lemma default_keys_Some:
  "truthy d \<Longrightarrow> \<not> typeof_not_object d \<Longrightarrow> \<exists>ds. default_keys d key a b = Some ds"
  by (cases d) (simp_all add: default_keys_def)

lemma description_check_Some:
  "p \<noteq> Undefined \<Longrightarrow> p \<noteq> Null \<Longrightarrow> \<exists>ds. description_check p key = Some ds"
  by (simp add: description_check_def get_field_node)

lemma name_check_Some:
  "p \<noteq> Undefined \<Longrightarrow> p \<noteq> Null \<Longrightarrow> \<exists>ds. name_check p key = Some ds"
  by (simp add: name_check_def get_field_node)

lemma default_check_Some:
  "p \<noteq> Undefined \<Longrightarrow> p \<noteq> Null \<Longrightarrow> \<exists>ds. default_check p key = Some ds"
  by (simp add: default_check_def get_field_node)

lemma required_check_Some: "truthy rules \<Longrightarrow> \<exists>ds. required_check rules key = Some ds"
  by (simp add: required_check_def get_field)

lemma content_check_Some: "truthy rules \<Longrightarrow> \<exists>ds. content_check rules key = Some ds"
  by (cases "truthy (field rules ''content'')") (simp_all add: content_check_def get_field)

lemma text_check_Some:
  "p \<noteq> Undefined \<Longrightarrow> p \<noteq> Null \<Longrightarrow> truthy rules \<Longrightarrow> \<exists>ds. text_check p rules key = Some ds"
  by (simp add: text_check_def get_field get_field_node)

lemma array_content_check_Some:
  "truthy rules \<Longrightarrow> content_coercible rules \<Longrightarrow> \<exists>ds. array_content_check E rules key = Some ds"
  by (cases "truthy (field rules ''content'')")
     (simp_all add: array_content_check_def get_field lt_one_def content_coercible_def)

lemma array_content_check_None:
  assumes "truthy rules" and "\<not> content_coercible rules"
  shows "array_content_check E rules key = None"
proof -
  let ?c = "field rules ''content''"
  from assms(2) have c: "truthy ?c"
    and n: "\<not> coercible (field ?c ''min'') \<or> \<not> coercible (field ?c ''max'')"
    by (simp_all add: content_coercible_def)
  have g: "get rules ''content'' = Some ?c" "get ?c k = Some (field ?c k)" for k
    using assms(1) c by (simp_all add: get_field)
  show ?thesis
  proof (cases "coercible (field ?c ''min'')")
    case False
    then have "truthy (field ?c ''min'')" using not_coercible by blast
    with False c show ?thesis by (simp add: array_content_check_def g lt_one_def)
  next
    case True
    with n have m: "\<not> coercible (field ?c ''max'')" by simp
    then have "truthy (field ?c ''max'')" using not_coercible by blast
    with m True c show ?thesis by (simp add: array_content_check_def g lt_one_def)
  qed
qed

lemma items_type_check_Some:
  "truthy items \<Longrightarrow> coercible (field items ''type'') \<Longrightarrow> \<exists>ds. items_type_check E items key = Some ds"
  by (simp add: items_type_check_def get_field template_def)

lemma items_node_check_Some:
  assumes "p \<noteq> Undefined" and "p \<noteq> Null" and "items_coercible p"
  shows "\<exists>ds. items_node_check E p key = Some ds"
proof (cases "truthy (field p ''items'')")
  case True
  with assms(3) have "coercible (field (field p ''items'') ''type'')"
    by (simp add: items_coercible_def)
  with True obtain ds where "items_type_check E (field p ''items'') key = Some ds"
    using items_type_check_Some by blast
  with True assms show ?thesis by (simp add: items_node_check_def get_field get_field_node)
next
  case False
  with assms show ?thesis by (simp add: items_node_check_def get_field_node)
qed

lemma items_node_check_None:
  assumes "p \<noteq> Undefined" and "p \<noteq> Null" and "\<not> items_coercible p"
  shows "items_node_check E p key = None"
proof -
  let ?i = "field p ''items''"
  from assms(3) have i: "truthy ?i" and n: "\<not> coercible (field ?i ''type'')"
    by (simp_all add: items_coercible_def)
  from n have "truthy (field ?i ''type'')" "not_in_FieldTypes E (field ?i ''type'')"
    using not_coercible by blast+
  with n i have "items_type_check E ?i key = None"
    by (simp add: items_type_check_def get_field template_def)
  with i assms(1,2) show ?thesis by (simp add: items_node_check_def get_field_node)
qed

lemma array_node_check_Some:
  assumes "p \<noteq> Undefined" and "p \<noteq> Null" and "truthy rules"
    and "field p ''type'' = Str ''array'' \<longrightarrow> content_coercible rules \<and> items_coercible p"
  shows "\<exists>ds. array_node_check E p rules key = Some ds"
proof (cases "field p ''type'' = Str ''array''")
  case True
  with assms(4) have c: "content_coercible rules" "items_coercible p" by simp_all
  obtain a where "array_content_check E rules key = Some a"
    using array_content_check_Some [OF assms(3) c(1)] by blast
  moreover obtain b where "items_node_check E p key = Some b"
    using items_node_check_Some [OF assms(1,2) c(2)] by blast
  ultimately show ?thesis using assms by (simp add: array_node_check_def get_field_node)
next
  case False
  with assms show ?thesis by (simp add: array_node_check_def get_field_node)
qed

lemma array_node_check_None:
  assumes "p \<noteq> Undefined" and "p \<noteq> Null" and "truthy rules"
    and "field p ''type'' = Str ''array''"
    and "\<not> (content_coercible rules \<and> items_coercible p)"
  shows "array_node_check E p rules key = None"
proof (cases "content_coercible rules")
  case False
  with assms(3) have "array_content_check E rules key = None" by (rule array_content_check_None)
  with assms show ?thesis by (simp add: array_node_check_def get_field_node)
next
  case True
  with assms(5) have "\<not> items_coercible p" by simp
  with assms(1,2) have "items_node_check E p key = None" by (rule items_node_check_None)
  moreover obtain a where "array_content_check E rules key = Some a"
    using array_content_check_Some [OF assms(3) True] by blast
  ultimately show ?thesis using assms by (simp add: array_node_check_def get_field_node)
qed

lemma link_check_Some:
  assumes "p \<noteq> Undefined" and "p \<noteq> Null"
  shows "\<exists>ds. link_check p key = Some ds"
  using assms default_keys_Some [of "field p ''default''"]
  by (simp add: link_check_def get_field_node)

lemma button_check_Some:
  assumes "p \<noteq> Undefined" and "p \<noteq> Null"
  shows "\<exists>ds. button_check p key = Some ds"
  using assms default_keys_Some [of "field p ''default''"]
  by (simp add: button_check_def get_field_node)

lemma dimensions_check_Some: "truthy rules \<Longrightarrow> \<exists>ds. dimensions_check rules key = Some ds"
  by (cases "truthy (field rules ''dimensions'')";
      cases "truthy (field (field rules ''dimensions'') ''min'')")
     (simp_all add: dimensions_check_def get_field)

lemma image_check_Some:
  assumes "p \<noteq> Undefined" and "p \<noteq> Null" and "truthy rules"
  shows "\<exists>ds. image_check p rules key = Some ds"
proof -
  let ?d = "field p ''default''"
  obtain b where b: "dimensions_check rules key = Some b"
    using dimensions_check_Some [OF assms(3)] by blast
  show ?thesis
  proof (cases "\<not> truthy ?d \<or> typeof_not_object ?d")
    case True
    with assms(1,2) b show ?thesis by (simp add: image_check_def get_field_node)
  next
    case False
    then obtain a where
      "default_keys ?d key
         (''src'', ''Default src is required for image fields'', ''image.default.src'')
         (''alt'', ''Default alt is required for image fields'', ''image.default.alt'') = Some a"
      using default_keys_Some by blast
    with False assms(1,2) b show ?thesis by (simp add: image_check_def get_field_node)
  qed
qed

text \<open>
  A node that is not \<^verbatim>\<open>null\<close> or \<^verbatim>\<open>undefined\<close> and whose coercions return gets its own
  diagnostics; on any other node the validator throws before it visits a nested field.
\<close>

lemma node_diags_Some:
  assumes "p \<noteq> Undefined" and "p \<noteq> Null" and "coercions_return p"
  shows "\<exists>own. node_diags E p key = Some own"
proof -
  from assms(3) have t: "coercible (field p ''type'')" by (simp add: coercions_return_def)
  obtain e1 where e1: "type_check E p key = Some e1"
    using type_check_Some [OF assms(1,2) t] by blast
  obtain e2 e3 e4 where e: "description_check p key = Some e2"
      "name_check p key = Some e3" "default_check p key = Some e4"
    using assms(1,2) description_check_Some name_check_Some default_check_Some
    by metis
  show ?thesis
  proof (cases "truthy (field p ''rules'')")
    case False
    with assms e1 e show ?thesis by (simp add: node_diags_def get_field_node)
  next
    case True
    let ?r = "field p ''rules''"
    from assms(3) True
    have "field p ''type'' = Str ''array'' \<longrightarrow> content_coercible ?r \<and> items_coercible p"
      by (simp add: coercions_return_def)
    then obtain e8 where e8: "array_node_check E p ?r key = Some e8"
      using array_node_check_Some [OF assms(1,2) True] by blast
    obtain e5 e6 e7 where f: "required_check ?r key = Some e5" "content_check ?r key = Some e6"
        "text_check p ?r key = Some e7"
      using assms(1,2) True required_check_Some content_check_Some text_check_Some by metis
    obtain e9 e10 e11 where g: "link_check p key = Some e9" "button_check p key = Some e10"
        "image_check p ?r key = Some e11"
      using assms(1,2) True link_check_Some button_check_Some image_check_Some by metis
    from assms(1,2) True e1 e e8 f g show ?thesis by (simp add: node_diags_def get_field_node)
  qed
qed

lemma node_diags_None:
  assumes "p = Undefined \<or> p = Null \<or> \<not> coercions_return p"
  shows "node_diags E p key = None"
proof (cases "p = Undefined \<or> p = Null")
  case True
  then show ?thesis by (auto simp: node_diags_def type_check_def)
next
  case False
  then have p: "p \<noteq> Undefined" "p \<noteq> Null" by simp_all
  from False assms have n: "\<not> coercions_return p" by simp
  show ?thesis
  proof (cases "coercible (field p ''type'')")
    case False
    with p have "type_check E p key = None" by (rule type_check_None)
    then show ?thesis by (simp add: node_diags_def)
  next
    case True
    let ?r = "field p ''rules''"
    from n True have r: "truthy ?r" and a: "field p ''type'' = Str ''array''"
      and c: "\<not> (content_coercible ?r \<and> items_coercible p)"
      by (auto simp: coercions_return_def)
    from p r a c have x: "array_node_check E p ?r key = None" by (rule array_node_check_None)
    obtain e1 where e1: "type_check E p key = Some e1"
      using type_check_Some [OF p True] by blast
    obtain e2 e3 e4 where e: "description_check p key = Some e2"
        "name_check p key = Some e3" "default_check p key = Some e4"
      using p description_check_Some name_check_Some default_check_Some by metis
    obtain e5 e6 e7 where f: "required_check ?r key = Some e5" "content_check ?r key = Some e6"
        "text_check p ?r key = Some e7"
      using p r required_check_Some content_check_Some text_check_Some by metis
    from p r e1 e f x show ?thesis by (simp add: node_diags_def get_field_node)
  qed
qed

text \<open>
  The validator returns on a tree, and then its result is the diagnostics of the node followed
  by the results for the nested fields, in order; on anything else it throws.
\<close>

lemma property_tree_nested:
  "property_tree p \<Longrightarrow> kv \<in> set (nested_fields p) \<Longrightarrow> property_tree (snd kv)"
  by (subst (asm) property_tree.simps) (simp add: list_all_iff)

lemma property_tree_node:
  "property_tree p \<Longrightarrow> p \<noteq> Undefined \<and> p \<noteq> Null \<and> coercions_return p"
  by (subst (asm) property_tree.simps) simp

lemma validateField_tree:
  "property_tree p \<Longrightarrow>
   \<exists>own. node_diags E p key = Some own \<and> validateField E p key = Some (own @ nested_diags E p)"
proof (induction p arbitrary: key rule: property_tree.induct)
  case (1 p)
  from "1.prems" have p: "p \<noteq> Undefined" "p \<noteq> Null" "coercions_return p"
    using property_tree_node by blast+
  obtain own where own: "node_diags E p key = Some own"
    using node_diags_Some [OF p] by blast
  have "list_all (\<lambda>kv. validateField E (snd kv) (fst kv) \<noteq> None) (nested_fields p)"
    unfolding list_all_iff
  proof
    fix kv assume kv: "kv \<in> set (nested_fields p)"
    with "1.prems" have pt: "property_tree (snd kv)" by (rule property_tree_nested)
    from "1.IH" [OF kv pt, of "fst kv"] obtain ds
      where "validateField E (snd kv) (fst kv) = Some ds" by blast
    then show "validateField E (snd kv) (fst kv) \<noteq> None" by simp
  qed
  then have "for_each (nested_fields p) (\<lambda>v k. validateField E v k) own
      = Some (own @ nested_diags E p)"
    unfolding nested_diags_def nested_result_def by (rule for_each_Some)
  with own show ?case by (simp add: validateField_node [of E p key])
qed

lemma validateField_not_tree: "\<not> property_tree p \<Longrightarrow> validateField E p key = None"
proof (induction p arbitrary: key rule: property_tree.induct)
  case (1 p)
  show ?case
  proof (cases "p = Undefined \<or> p = Null \<or> \<not> coercions_return p")
    case True
    then have "node_diags E p key = None" by (rule node_diags_None)
    then show ?thesis by (simp add: validateField_node [of E p key])
  next
    case False
    with "1.prems" obtain kv where kv: "kv \<in> set (nested_fields p)" "\<not> property_tree (snd kv)"
      by (subst (asm) property_tree.simps) (auto simp: list_all_iff)
    with "1.IH" False have "validateField E (snd kv) (fst kv) = None" by simp
    with kv have "\<not> list_all (\<lambda>kv. validateField E (snd kv) (fst kv) \<noteq> None) (nested_fields p)"
      by (auto simp: list_all_iff)
    then have "for_each (nested_fields p) (\<lambda>v k. validateField E v k) own = None" for own
      by (rule for_each_None)
    then show ?thesis by (simp add: validateField_node [of E p key] split: bind_splits)
  qed
qed

subsection \<open>The attributes and severities of each block\<close>

lemma emits_Nil: "emits key S []"
  by (simp add: emits_def)

lemma emits_append: "emits key S (xs @ ys) = (emits key S xs \<and> emits key S ys)"
  by (auto simp: emits_def)

lemma emits_err: "emits key S (err m a key' # ds) = (key' = key \<and> (a, Error) \<in> S \<and> emits key S ds)"
  by (auto simp: emits_def err_def)

lemma emits_warn:
  "emits key S (warn m a key' # ds) = (key' = key \<and> (a, Warning) \<in> S \<and> emits key S ds)"
  by (auto simp: emits_def warn_def)

lemma emits_filter:
  "emits key S ds \<Longrightarrow> (\<And>d s. severity d = Some s \<Longrightarrow> (attribute d, s) \<in> S \<Longrightarrow> \<not> P d)
   \<Longrightarrow> filter P ds = []"
  by (fastforce simp: emits_def filter_empty_conv)

lemma emits_property: "emits key S ds \<Longrightarrow> d \<in> set ds \<Longrightarrow> property d = Some key"
  by (simp add: emits_def)

lemmas emits_simps = emits_Nil emits_append emits_err emits_warn

lemma type_check_emits: "type_check E p key = Some ds \<Longrightarrow> emits key {(''type'', Error)} ds"
  by (auto simp: type_check_def emits_simps split: bind_splits if_splits)

lemma description_check_emits:
  "description_check p key = Some ds \<Longrightarrow> emits key {(''description'', Warning)} ds"
  by (auto simp: description_check_def emits_simps split: bind_splits if_splits)

lemma name_check_emits: "name_check p key = Some ds \<Longrightarrow> emits key {(''name'', Error)} ds"
  by (auto simp: name_check_def emits_simps split: bind_splits if_splits)

lemma default_check_emits:
  "default_check p key = Some ds \<Longrightarrow> emits key {(''default'', Warning)} ds"
  by (auto simp: default_check_def emits_simps split: bind_splits if_splits)

lemma required_check_emits:
  "required_check rules key = Some ds \<Longrightarrow> emits key {(''rules.required'', Error)} ds"
  by (auto simp: required_check_def emits_simps split: bind_splits if_splits)

lemma content_check_emits:
  "content_check rules key = Some ds \<Longrightarrow> emits key {(''rules.content.min'', Warning)} ds"
  by (auto simp: content_check_def emits_simps split: bind_splits if_splits)

lemma text_check_emits:
  "text_check p rules key = Some ds \<Longrightarrow> emits key {(''rules.content'', Error)} ds"
  by (auto simp: text_check_def emits_simps split: bind_splits if_splits)

lemma array_content_check_emits:
  "array_content_check E rules key = Some ds \<Longrightarrow>
   emits key {(''rules.content'', Error), (''rules.content.min'', Error),
     (''rules.content.max'', Error)} ds"
  by (auto simp: array_content_check_def emits_simps split: bind_splits if_splits)

lemma items_node_check_emits:
  "items_node_check E p key = Some ds \<Longrightarrow>
   emits key {(''items'', Error), (''items.type'', Error), (''items.properties'', Error)} ds"
  by (auto simp: items_node_check_def items_type_check_def emits_simps
      split: bind_splits if_splits)

lemma emits_mono: "emits key S ds \<Longrightarrow> S \<subseteq> T \<Longrightarrow> emits key T ds"
  by (fastforce simp: emits_def)

lemma array_node_check_emits:
  assumes "array_node_check E p rules key = Some ds"
  shows "emits key {(''rules.content'', Error), (''rules.content.min'', Error),
     (''rules.content.max'', Error), (''items'', Error), (''items.type'', Error),
     (''items.properties'', Error)} ds"
proof -
  let ?S = "{(''rules.content'', Error), (''rules.content.min'', Error),
     (''rules.content.max'', Error), (''items'', Error), (''items.type'', Error),
     (''items.properties'', Error)}"
  have a: "emits key ?S xs" if "array_content_check E rules key = Some xs" for xs
    using array_content_check_emits [OF that] by (rule emits_mono) simp
  have b: "emits key ?S ys" if "items_node_check E p key = Some ys" for ys
    using items_node_check_emits [OF that] by (rule emits_mono) simp
  from assms show ?thesis
    by (auto simp: array_node_check_def emits_Nil emits_append a b split: bind_splits if_splits)
qed

lemma default_keys_emits:
  "default_keys d key (k1, m1, a1) (k2, m2, a2) = Some ds \<Longrightarrow>
   emits key {(a1, Error), (a2, Error)} ds"
  by (auto simp: default_keys_def emits_simps split: bind_splits if_splits)

lemma link_check_emits:
  assumes "link_check p key = Some ds"
  shows "emits key {(''default'', Error), (''image.default.url'', Error),
     (''link.default.text'', Error)} ds"
  using assms
  by (auto simp: link_check_def emits_simps split: bind_splits if_splits
      dest!: default_keys_emits elim: emits_mono)

lemma button_check_emits:
  assumes "button_check p key = Some ds"
  shows "emits key {(''default'', Error), (''image.default.url'', Error),
     (''link.default.label'', Error)} ds"
  using assms
  by (auto simp: button_check_def emits_simps split: bind_splits if_splits
      dest!: default_keys_emits elim: emits_mono)

lemma dimensions_check_emits:
  "dimensions_check rules key = Some ds \<Longrightarrow>
   emits key {(''rules.dimensions'', Error), (''rules.dimensions.min'', Error),
     (''rules.dimensions.width'', Error), (''rules.dimensions.height'', Error)} ds"
  by (auto simp: dimensions_check_def emits_simps split: bind_splits if_splits)

lemma image_check_emits:
  assumes "image_check p rules key = Some ds"
  shows "emits key {(''default'', Error), (''image.default.src'', Error),
     (''image.default.alt'', Error), (''rules.dimensions'', Error),
     (''rules.dimensions.min'', Error), (''rules.dimensions.width'', Error),
     (''rules.dimensions.height'', Error)} ds"
proof -
  let ?S = "{(''default'', Error), (''image.default.src'', Error),
     (''image.default.alt'', Error), (''rules.dimensions'', Error),
     (''rules.dimensions.min'', Error), (''rules.dimensions.width'', Error),
     (''rules.dimensions.height'', Error)}"
  have a: "emits key ?S xs" if "dimensions_check rules key = Some xs" for xs
    using dimensions_check_emits [OF that] by (rule emits_mono) simp
  have b: "emits key ?S ys"
    if "default_keys d key
         (''src'', ''Default src is required for image fields'', ''image.default.src'')
         (''alt'', ''Default alt is required for image fields'', ''image.default.alt'') = Some ys"
    for d ys
    using default_keys_emits [OF that] by (rule emits_mono) simp
  from assms show ?thesis
    by (auto simp: image_check_def emits_simps a b split: bind_splits if_splits)
qed

subsection \<open>The blocks of a node\<close>

lemma node_diags_node: "node_diags E p key = Some own \<Longrightarrow> p \<noteq> Undefined \<and> p \<noteq> Null"
  using node_diags_None [of p E key] by auto

lemma node_diags_no_rulesE:
  assumes "node_diags E p key = Some own" and "\<not> truthy (field p ''rules'')"
  obtains e_type e_description e_name e_default
  where "type_check E p key = Some e_type" and "description_check p key = Some e_description"
    and "name_check p key = Some e_name" and "default_check p key = Some e_default"
    and "own = e_type @ e_description @ e_name @ e_default
           @ [warn ''Field rules are required'' ''rules'' key]"
proof -
  have "get p ''rules'' = Some (field p ''rules'')"
    using node_diags_node [OF assms(1)] by (simp add: get_field_node)
  with assms that show thesis
    by (auto simp: node_diags_def split: bind_splits)
qed

lemma node_diags_rulesE:
  assumes "node_diags E p key = Some own" and "truthy (field p ''rules'')"
  obtains e_type e_description e_name e_default e_required e_content e_text e_array
    e_link e_button e_image
  where "type_check E p key = Some e_type" and "description_check p key = Some e_description"
    and "name_check p key = Some e_name" and "default_check p key = Some e_default"
    and "required_check (field p ''rules'') key = Some e_required"
    and "content_check (field p ''rules'') key = Some e_content"
    and "text_check p (field p ''rules'') key = Some e_text"
    and "array_node_check E p (field p ''rules'') key = Some e_array"
    and "link_check p key = Some e_link" and "button_check p key = Some e_button"
    and "image_check p (field p ''rules'') key = Some e_image"
    and "own = e_type @ e_description @ e_name @ e_default @ e_required @ e_content @ e_text
           @ e_array @ e_link @ e_button @ e_image"
proof -
  have "get p ''rules'' = Some (field p ''rules'')"
    using node_diags_node [OF assms(1)] by (simp add: get_field_node)
  with assms that show thesis
    by (auto simp: node_diags_def split: bind_splits)
qed

lemma content_check_eq:
  assumes "truthy rules" and "truthy (field rules ''content'')"
  shows "content_check rules key = Some (
      (if \<not> truthy (field (field rules ''content'') ''min'') \<and> field rules ''required'' = Bool True
       then [warn ''Content rules must have a minimum length'' ''rules.content.min'' key]
       else [])
    @ (if \<not> truthy (field (field rules ''content'') ''max'')
       then [warn ''Content rules must have a maximum length'' ''rules.content.min'' key]
       else []))"
  using assms by (simp add: content_check_def get_field)

lemma array_content_check_eq:
  assumes "truthy rules" and "truthy (field rules ''content'')" and "content_coercible rules"
  shows "array_content_check E rules key = Some (
      (if \<not> truthy (field (field rules ''content'') ''min'')
       then [err ''Array fields must have a minimum content length'' ''rules.content.min'' key]
       else if below_one E (field (field rules ''content'') ''min'')
       then [err ''Array fields must have a maximum content length'' ''rules.content.min'' key]
       else [])
    @ (if \<not> truthy (field (field rules ''content'') ''max'')
       then [err ''Content rules must have a maximum length'' ''rules.content.min'' key]
       else if below_one E (field (field rules ''content'') ''max'')
       then [err ''Content rules maximum length must be greater than 0''
               ''rules.content.max'' key]
       else []))"
  using assms by (simp add: array_content_check_def get_field lt_one_def content_coercible_def)

lemma array_content_check_coercible:
  assumes "array_content_check E rules key = Some ds" and "truthy rules"
  shows "content_coercible rules"
  using assms array_content_check_None [of rules E key] by auto

lemma lt_one_min:
  "content_coercible rules \<Longrightarrow> truthy (field rules ''content'') \<Longrightarrow>
   lt_one E (field (field rules ''content'') ''min'')
     = Some (below_one E (field (field rules ''content'') ''min''))"
  by (simp add: lt_one_def content_coercible_def)

lemma array_node_check_array:
  assumes "array_node_check E p rules key = Some ds" and "field p ''type'' = Str ''array''"
  obtains a b where "array_content_check E rules key = Some a"
    and "items_node_check E p key = Some b" and "ds = a @ b"
proof -
  from assms(1) have "get p ''type'' \<noteq> None"
    by (auto simp: array_node_check_def split: bind_splits)
  then have "get p ''type'' = Some (Str ''array'')"
    using assms(2) get_SomeD by fastforce
  with assms(1) that show thesis
    by (auto simp: array_node_check_def split: bind_splits)
qed

lemmas checks = type_check_def description_check_def name_check_def default_check_def
  required_check_def content_check_def text_check_def array_content_check_def
  items_type_check_def default_keys_def link_check_def button_check_def dimensions_check_def
  image_check_def template_def lt_one_def

lemma truthy_field: "truthy (field v k) \<Longrightarrow> truthy v"
  by (cases v) (auto simp: field_def split: if_splits)

lemma for_in_truthy: "kv \<in> set (for_in v) \<Longrightarrow> truthy v"
  by (cases v) auto

lemma field_Obj: "field (Obj kvs) k = (case map_of kvs k of Some w \<Rightarrow> w | None \<Rightarrow> Undefined)"
  by (simp add: field_def split: option.splits)

lemma property_tree_content:
  assumes "property_tree p" and "truthy (field p ''rules'')" and "field p ''type'' = Str ''array''"
  shows "content_coercible (field p ''rules'')"
  using assms property_tree_node [of p] by (simp add: coercions_return_def)

lemma property_tree_array_with_content:
  "coercible (field c ''min'') \<Longrightarrow> coercible (field c ''max'') \<Longrightarrow>
   property_tree (array_with_content c)"
  by (simp add: array_with_content_def property_tree_unfold nested_fields_def
      coercions_return_def content_coercible_def items_coercible_def field_Obj)

lemma emits_attribute:
  assumes "emits key S ds" and "d \<in> set ds"
  shows "attribute d \<in> fst ` S"
proof -
  from assms obtain s where "(attribute d, s) \<in> S" by (auto simp: emits_def)
  then show ?thesis by force
qed

lemma emits_severity:
  assumes "emits key S ds" and "d \<in> set ds"
  shows "\<exists>s\<in>snd ` S. severity d = Some s"
proof -
  from assms obtain s where "severity d = Some s" "(attribute d, s) \<in> S"
    by (auto simp: emits_def)
  then show ?thesis by force
qed

lemma emits_no_attr:
  "emits key S ds \<Longrightarrow> a \<notin> fst ` S \<Longrightarrow> attribute d = a \<Longrightarrow> d \<notin> set ds"
  using emits_attribute by blast

lemma emits_no_pair:
  "emits key S ds \<Longrightarrow> (a, s) \<notin> S \<Longrightarrow> d \<in> set ds \<Longrightarrow> attribute d = a \<Longrightarrow> severity d \<noteq> Some s"
  by (auto simp: emits_def)

lemma emits_UNIV: "emits key S ds \<Longrightarrow> emits key UNIV ds"
  by (auto simp: emits_def)

lemma node_diags_emits:
  assumes "node_diags E p key = Some own"
  shows "emits key UNIV own"
proof (cases "truthy (field p ''rules'')")
  case False
  with assms obtain e_type e_description e_name e_default
    where e: "type_check E p key = Some e_type" "description_check p key = Some e_description"
      "name_check p key = Some e_name" "default_check p key = Some e_default"
    and o: "own = e_type @ e_description @ e_name @ e_default
           @ [warn ''Field rules are required'' ''rules'' key]"
    by (rule node_diags_no_rulesE)
  show ?thesis
    unfolding o emits_append emits_warn
    using e(1) [THEN type_check_emits, THEN emits_UNIV]
      e(2) [THEN description_check_emits, THEN emits_UNIV]
      e(3) [THEN name_check_emits, THEN emits_UNIV]
      e(4) [THEN default_check_emits, THEN emits_UNIV]
    by (simp add: emits_Nil)
next
  case True
  with assms obtain e_type e_description e_name e_default e_required e_content e_text
    e_array e_link e_button e_image
    where e: "type_check E p key = Some e_type" "description_check p key = Some e_description"
      "name_check p key = Some e_name" "default_check p key = Some e_default"
      "required_check (field p ''rules'') key = Some e_required"
      "content_check (field p ''rules'') key = Some e_content"
      "text_check p (field p ''rules'') key = Some e_text"
      "array_node_check E p (field p ''rules'') key = Some e_array"
      "link_check p key = Some e_link" "button_check p key = Some e_button"
      "image_check p (field p ''rules'') key = Some e_image"
    and o: "own = e_type @ e_description @ e_name @ e_default @ e_required @ e_content @ e_text
           @ e_array @ e_link @ e_button @ e_image"
    by (rule node_diags_rulesE)
  show ?thesis
    unfolding o emits_append
    using e(1) [THEN type_check_emits, THEN emits_UNIV]
      e(2) [THEN description_check_emits, THEN emits_UNIV]
      e(3) [THEN name_check_emits, THEN emits_UNIV]
      e(4) [THEN default_check_emits, THEN emits_UNIV]
      e(5) [THEN required_check_emits, THEN emits_UNIV]
      e(6) [THEN content_check_emits, THEN emits_UNIV]
      e(7) [THEN text_check_emits, THEN emits_UNIV]
      e(8) [THEN array_node_check_emits, THEN emits_UNIV]
      e(9) [THEN link_check_emits, THEN emits_UNIV]
      e(10) [THEN button_check_emits, THEN emits_UNIV]
      e(11) [THEN image_check_emits, THEN emits_UNIV]
    by simp
qed

lemma node_diags_property:
  "node_diags E p key = Some own \<Longrightarrow> d \<in> set own \<Longrightarrow> property d = Some key"
  using node_diags_emits emits_property by blast

lemma array_content_check_max:
  assumes "array_content_check E rules key = Some ds" and "d \<in> set ds"
    and "attribute d = ''rules.content.max''"
  shows "d = err ''Content rules maximum length must be greater than 0'' ''rules.content.max'' key
    \<and> truthy (field (field rules ''content'') ''max'')"
proof (cases "get rules ''content''")
  case None
  with assms(1) show ?thesis by (simp add: array_content_check_def)
next
  case (Some c)
  then have c: "c = field rules ''content''" by (simp add: field_def)
  show ?thesis
  proof (cases "truthy c")
    case False
    with assms Some show ?thesis by (auto simp: array_content_check_def err_def)
  next
    case True
    then have t: "truthy (field rules ''content'')" by (simp add: c)
    then have r: "truthy rules" by (rule truthy_field)
    from assms(1) r have cc: "content_coercible rules" by (rule array_content_check_coercible)
    let ?mn = "if \<not> truthy (field c ''min'')
       then [err ''Array fields must have a minimum content length'' ''rules.content.min'' key]
       else if below_one E (field c ''min'')
       then [err ''Array fields must have a maximum content length'' ''rules.content.min'' key]
       else []"
    let ?mx = "if \<not> truthy (field c ''max'')
       then [err ''Content rules must have a maximum length'' ''rules.content.min'' key]
       else if below_one E (field c ''max'')
       then [err ''Content rules maximum length must be greater than 0''
               ''rules.content.max'' key]
       else []"
    from assms(1) have ds: "ds = ?mn @ ?mx"
      unfolding array_content_check_eq [OF r t cc] c by simp
    have "d \<notin> set ?mn" using assms(3) by (auto simp: err_def)
    with assms(2) have "d \<in> set ?mx" by (simp add: ds)
    with assms(3) show ?thesis unfolding c [symmetric] by (auto simp: err_def split: if_splits)
  qed
qed

text \<open>
  A diagnostic of the node with attribute \<open>rules.content.max\<close> is the error for a maximum
  below one.
\<close>

lemma node_diags_max:
  assumes "node_diags E p key = Some own" and "d \<in> set own"
    and "attribute d = ''rules.content.max''"
  shows "d = err ''Content rules maximum length must be greater than 0'' ''rules.content.max'' key
    \<and> truthy (field (field (field p ''rules'') ''content'') ''max'')"
proof (cases "truthy (field p ''rules'')")
  case False
  with assms(1) obtain e_type e_description e_name e_default
    where e: "type_check E p key = Some e_type" "description_check p key = Some e_description"
      "name_check p key = Some e_name" "default_check p key = Some e_default"
    and o: "own = e_type @ e_description @ e_name @ e_default
           @ [warn ''Field rules are required'' ''rules'' key]"
    by (rule node_diags_no_rulesE)
  have "d \<notin> set e_type" "d \<notin> set e_description" "d \<notin> set e_name" "d \<notin> set e_default"
    using assms(3)
      e(1) [THEN type_check_emits, THEN emits_no_attr, of "''rules.content.max''" d]
      e(2) [THEN description_check_emits, THEN emits_no_attr, of "''rules.content.max''" d]
      e(3) [THEN name_check_emits, THEN emits_no_attr, of "''rules.content.max''" d]
      e(4) [THEN default_check_emits, THEN emits_no_attr, of "''rules.content.max''" d]
    by simp_all
  with assms(2,3) show ?thesis by (auto simp: o warn_def)
next
  case True
  let ?r = "field p ''rules''"
  from assms(1) True obtain e_type e_description e_name e_default e_required e_content e_text
    e_array e_link e_button e_image
    where e: "type_check E p key = Some e_type" "description_check p key = Some e_description"
      "name_check p key = Some e_name" "default_check p key = Some e_default"
      "required_check ?r key = Some e_required"
      "content_check ?r key = Some e_content"
      "text_check p ?r key = Some e_text"
      "array_node_check E p ?r key = Some e_array"
      "link_check p key = Some e_link" "button_check p key = Some e_button"
      "image_check p ?r key = Some e_image"
    and o: "own = e_type @ e_description @ e_name @ e_default @ e_required @ e_content @ e_text
           @ e_array @ e_link @ e_button @ e_image"
    by (rule node_diags_rulesE)
  have "d \<notin> set e_type" "d \<notin> set e_description" "d \<notin> set e_name" "d \<notin> set e_default"
    "d \<notin> set e_required" "d \<notin> set e_content" "d \<notin> set e_text" "d \<notin> set e_link"
    "d \<notin> set e_button" "d \<notin> set e_image"
    using assms(3)
      e(1) [THEN type_check_emits, THEN emits_no_attr, of "''rules.content.max''" d]
      e(2) [THEN description_check_emits, THEN emits_no_attr, of "''rules.content.max''" d]
      e(3) [THEN name_check_emits, THEN emits_no_attr, of "''rules.content.max''" d]
      e(4) [THEN default_check_emits, THEN emits_no_attr, of "''rules.content.max''" d]
      e(5) [THEN required_check_emits, THEN emits_no_attr, of "''rules.content.max''" d]
      e(6) [THEN content_check_emits, THEN emits_no_attr, of "''rules.content.max''" d]
      e(7) [THEN text_check_emits, THEN emits_no_attr, of "''rules.content.max''" d]
      e(9) [THEN link_check_emits, THEN emits_no_attr, of "''rules.content.max''" d]
      e(10) [THEN button_check_emits, THEN emits_no_attr, of "''rules.content.max''" d]
      e(11) [THEN image_check_emits, THEN emits_no_attr, of "''rules.content.max''" d]
    by simp_all
  with assms(2) have d: "d \<in> set e_array" by (simp add: o)
  then have "field p ''type'' = Str ''array''"
    using e(8) by (auto simp: array_node_check_def split: bind_splits if_splits dest: get_SomeD)
  with e(8) obtain x y where x: "array_content_check E ?r key = Some x"
    and y: "items_node_check E p key = Some y" and xy: "e_array = x @ y"
    by (rule array_node_check_array)
  have "d \<notin> set y"
    using assms(3) y [THEN items_node_check_emits, THEN emits_no_attr, of "''rules.content.max''" d]
    by simp
  with d have "d \<in> set x" by (simp add: xy)
  with x show ?thesis using assms(3) by (rule array_content_check_max)
qed

lemma validateField_max:
  "property_tree p \<Longrightarrow> validateField E p key = Some ds \<Longrightarrow> d \<in> set ds \<Longrightarrow>
   attribute d = ''rules.content.max'' \<Longrightarrow>
   message d = ''Content rules maximum length must be greater than 0'' \<and> severity d = Some Error"
proof (induction p arbitrary: key ds rule: property_tree.induct)
  case (1 p)
  obtain own where own: "node_diags E p key = Some own"
    and v: "validateField E p key = Some (own @ nested_diags E p)"
    using validateField_tree [OF "1.prems"(1)] by blast
  with "1.prems"(2,3) consider "d \<in> set own" | "d \<in> set (nested_diags E p)" by auto
  then show ?case
  proof cases
    case 1
    with own "1.prems"(4) show ?thesis by (auto dest: node_diags_max simp: err_def)
  next
    case 2
    then obtain kv where kv: "kv \<in> set (nested_fields p)" and d: "d \<in> set (nested_result E kv)"
      by (auto simp: nested_diags_def)
    from "1.prems"(1) kv have t: "property_tree (snd kv)" by (rule property_tree_nested)
    then obtain ds' where ds': "validateField E (snd kv) (fst kv) = Some ds'"
      using validateField_tree by blast
    with d have "d \<in> set ds'" by (simp add: nested_result_def)
    with "1.IH" [OF kv t ds'] "1.prems"(4) show ?thesis by blast
  qed
qed

lemma node_diags_type_first:
  assumes "node_diags E p key = Some own"
  shows "\<exists>e rest. type_check E p key = Some e \<and> own = e @ rest"
proof (cases "truthy (field p ''rules'')")
  case False
  with assms obtain e_type e_description e_name e_default
    where "type_check E p key = Some e_type"
      and "own = e_type @ e_description @ e_name @ e_default
           @ [warn ''Field rules are required'' ''rules'' key]"
    by (rule node_diags_no_rulesE)
  then show ?thesis by blast
next
  case True
  with assms obtain e_type e_description e_name e_default e_required e_content e_text
    e_array e_link e_button e_image
    where "type_check E p key = Some e_type"
      and "own = e_type @ e_description @ e_name @ e_default @ e_required @ e_content @ e_text
           @ e_array @ e_link @ e_button @ e_image"
    by (rule node_diags_rulesE)
  then show ?thesis by blast
qed

subsection \<open>Fully populated fields\<close>

lemma fully_populated_unfold:
  "fully_populated E p =
     (let t = field p ''type''; d = field p ''default''; rules = field p ''rules'';
          content = field rules ''content''; dimensions = field rules ''dimensions'';
          items = field p ''items''
      in valid_type E t \<and> truthy (field p ''name'') \<and> truthy (field p ''description'')
       \<and> truthy rules
       \<and> (field rules ''required'' = Bool True \<or> field rules ''required'' = Bool False)
       \<and> (t \<noteq> Str ''array'' \<longrightarrow> d \<noteq> Undefined)
       \<and> (truthy content \<longrightarrow> truthy (field content ''max'')
            \<and> (field rules ''required'' = Bool True \<longrightarrow> truthy (field content ''min'')))
       \<and> (t = Str ''text'' \<longrightarrow> truthy content)
       \<and> (t = Str ''link'' \<longrightarrow> default_with d ''url'' ''text'')
       \<and> (t = Str ''button'' \<longrightarrow> default_with d ''url'' ''label'')
       \<and> (t = Str ''image'' \<longrightarrow> default_with d ''src'' ''alt'' \<and> truthy dimensions
            \<and> truthy (field dimensions ''min'')
            \<and> truthy (field (field dimensions ''min'') ''width'')
            \<and> truthy (field (field dimensions ''min'') ''height''))
       \<and> (t = Str ''array'' \<longrightarrow> truthy content \<and> at_least_one (field content ''min'')
            \<and> at_least_one (field content ''max'') \<and> truthy items
            \<and> valid_type E (field items ''type'') \<and> truthy (field items ''properties''))
       \<and> list_all (fully_populated E \<circ> snd) (nested_fields p))"
  unfolding comp_def by (rule fully_populated.simps)

lemma at_least_oneD: "at_least_one v \<Longrightarrow> truthy v \<and> lt_one E v = Some False"
  by (cases v) (auto simp: lt_one_def)

lemma for_each_all_Nil:
  "(\<And>kv. kv \<in> set kvs \<Longrightarrow> f (snd kv) (fst kv) = Some []) \<Longrightarrow> for_each kvs f errors = Some errors"
  by (induction kvs arbitrary: errors) simp_all

lemma default_keys_Nil:
  "default_with d k1 k2 \<Longrightarrow> default_keys d key (k1, m1, a1) (k2, m2, a2) = Some []"
  by (simp add: default_with_def default_keys_def)

lemma node_diags_fully_populated:
  assumes "fully_populated E p"
  shows "node_diags E p key = Some []"
proof -
  let ?t = "field p ''type''"
  let ?r = "field p ''rules''"
  let ?c = "field ?r ''content''"
  let ?d = "field p ''default''"
  let ?dims = "field ?r ''dimensions''"
  let ?items = "field p ''items''"
  from assms have f: "valid_type E ?t" "truthy (field p ''name'')"
      "truthy (field p ''description'')" "truthy ?r"
      "field ?r ''required'' = Bool True \<or> field ?r ''required'' = Bool False"
      "?t \<noteq> Str ''array'' \<longrightarrow> ?d \<noteq> Undefined"
      "truthy ?c \<longrightarrow> truthy (field ?c ''max'')
            \<and> (field ?r ''required'' = Bool True \<longrightarrow> truthy (field ?c ''min''))"
      "?t = Str ''text'' \<longrightarrow> truthy ?c"
    and l: "?t = Str ''link'' \<longrightarrow> default_with ?d ''url'' ''text''"
    and b: "?t = Str ''button'' \<longrightarrow> default_with ?d ''url'' ''label''"
    and i: "?t = Str ''image'' \<longrightarrow> default_with ?d ''src'' ''alt'' \<and> truthy ?dims
            \<and> truthy (field ?dims ''min'')
            \<and> truthy (field (field ?dims ''min'') ''width'')
            \<and> truthy (field (field ?dims ''min'') ''height'')"
    and a: "?t = Str ''array'' \<longrightarrow> truthy ?c \<and> at_least_one (field ?c ''min'')
            \<and> at_least_one (field ?c ''max'') \<and> truthy ?items
            \<and> valid_type E (field ?items ''type'') \<and> truthy (field ?items ''properties'')"
    by (simp_all add: fully_populated.simps [of E p] Let_def)
  from f(2) have p: "p \<noteq> Undefined" "p \<noteq> Null" by (auto simp: field_def)
  have g: "get p k = Some (field p k)" for k using p by (rule get_field_node)
  have gr: "get ?r k = Some (field ?r k)" for k using f(4) by (rule get_field)
  have 1: "type_check E p key = Some []"
    using f(1) by (simp add: type_check_def g valid_type_def)
  have 2: "description_check p key = Some []"
    using f(3) by (simp add: description_check_def g)
  have 3: "name_check p key = Some []"
    using f(2) by (simp add: name_check_def g)
  have 4: "default_check p key = Some []"
    using f(6) by (auto simp: default_check_def g)
  have 5: "required_check ?r key = Some []"
    using f(5) by (auto simp: required_check_def gr)
  have 6: "content_check ?r key = Some []"
  proof (cases "truthy ?c")
    case True
    with f(7) show ?thesis by (auto simp: content_check_def gr get_field)
  next
    case False
    then show ?thesis by (simp add: content_check_def gr)
  qed
  have 7: "text_check p ?r key = Some []"
    using f(8) by (simp add: text_check_def g gr)
  have 8: "array_node_check E p ?r key = Some []"
  proof (cases "?t = Str ''array''")
    case False
    then show ?thesis by (simp add: array_node_check_def g)
  next
    case True
    with a have c: "truthy ?c" and mn: "at_least_one (field ?c ''min'')"
      and mx: "at_least_one (field ?c ''max'')" and it: "truthy ?items"
      and ty: "valid_type E (field ?items ''type'')" and pr: "truthy (field ?items ''properties'')"
      by simp_all
    have "array_content_check E ?r key = Some []"
      using c at_least_oneD [OF mn, of E] at_least_oneD [OF mx, of E]
      by (simp add: array_content_check_def gr get_field)
    moreover have "items_node_check E p key = Some []"
      using it ty pr
      by (simp add: items_node_check_def items_type_check_def g get_field valid_type_def)
    ultimately show ?thesis using True by (simp add: array_node_check_def g)
  qed
  have 9: "link_check p key = Some []"
  proof (cases "?t = Str ''link''")
    case False
    then show ?thesis by (simp add: link_check_def g)
  next
    case True
    with l have d: "default_with ?d ''url'' ''text''" by simp
    then have "truthy ?d" "\<not> typeof_not_object ?d" by (simp_all add: default_with_def)
    with True show ?thesis by (simp add: link_check_def g default_keys_Nil [OF d])
  qed
  have 10: "button_check p key = Some []"
  proof (cases "?t = Str ''button''")
    case False
    then show ?thesis by (simp add: button_check_def g)
  next
    case True
    with b have d: "default_with ?d ''url'' ''label''" by simp
    then have "truthy ?d" "\<not> typeof_not_object ?d" by (simp_all add: default_with_def)
    with True show ?thesis by (simp add: button_check_def g default_keys_Nil [OF d])
  qed
  have 11: "image_check p ?r key = Some []"
  proof (cases "?t = Str ''image''")
    case False
    then show ?thesis by (simp add: image_check_def g)
  next
    case True
    with i have d: "default_with ?d ''src'' ''alt''" and dm: "truthy ?dims"
      "truthy (field ?dims ''min'')" "truthy (field (field ?dims ''min'') ''width'')"
      "truthy (field (field ?dims ''min'') ''height'')"
      by simp_all
    from d have "truthy ?d" "\<not> typeof_not_object ?d" by (simp_all add: default_with_def)
    moreover have "dimensions_check ?r key = Some []"
      using dm by (simp add: dimensions_check_def gr get_field)
    ultimately show ?thesis
      using True by (simp add: image_check_def g default_keys_Nil [OF d])
  qed
  show ?thesis
    using f(4) by (simp add: node_diags_def 1 2 3 4 5 6 7 8 9 10 11 g)
qed

lemma fully_populated_nested:
  "fully_populated E p \<Longrightarrow> kv \<in> set (nested_fields p) \<Longrightarrow> fully_populated E (snd kv)"
  by (subst (asm) fully_populated.simps) (simp add: Let_def list_all_iff)

lemma validateField_fully_populated:
  "fully_populated E p \<Longrightarrow> validateField E p key = Some []"
proof (induction E p arbitrary: key rule: fully_populated.induct)
  case (1 E p)
  have n: "node_diags E p key = Some []"
    using "1.prems" by (rule node_diags_fully_populated)
  have "validateField E (snd kv) (fst kv) = Some []" if "kv \<in> set (nested_fields p)" for kv
    using "1.IH" [OF _ _ _ _ _ _ that] fully_populated_nested [OF "1.prems" that] by simp
  then have "for_each (nested_fields p) (\<lambda>v k. validateField E v k) [] = Some []"
    by (rule for_each_all_Nil)
  with n show ?case by (simp add: validateField_node [of E p key])
qed

subsection \<open>The two iterations on the same fields\<close>

lemmas index_checks = index_default_check_def index_required_check_def index_content_check_def
  index_image_check_def

lemma index_reports_required_false:
  "validateField_index example_env valid_text ''title''
     = Some [warn ''Field default is required'' ''default'' ''title'',
             err ''Field rules.required is required'' ''rules.required'' ''title'']"
  by (simp add: validateField_index.simps checks index_checks valid_text_def example_env_def)

lemma index_warns_array_without_default:
  "validateField_index example_env bare_array ''cards''
     = Some [warn ''Field default is required'' ''default'' ''cards'',
             err ''Field type object is invalid'' ''items.type'' ''cards'']"
  by (simp add: validateField_index.simps checks index_checks bare_array_def example_env_def)

lemma index_warns_minimum_when_optional:
  "validateField_index example_env (array_with_content (Obj [(''max'', Num 4)])) ''cards''
     = Some [warn ''Field default is required'' ''default'' ''cards'',
             err ''Field rules.required is required'' ''rules.required'' ''cards'',
             warn ''Content rules must have a minimum length'' ''rules.content.min'' ''cards'',
             err ''Array fields must have a minimum content length'' ''rules.content.min''
               ''cards'']"
  by (simp add: validateField_index.simps checks index_checks array_with_content_def
      example_env_def)

lemma current_on_the_same_fields:
  "validateField example_env valid_text ''title'' = Some []"
  "validateField example_env bare_array ''cards''
     = Some [err ''Field type object is invalid'' ''items.type'' ''cards'']"
  "validateField example_env (array_with_content (Obj [(''max'', Num 4)])) ''cards''
     = Some [err ''Array fields must have a minimum content length'' ''rules.content.min''
               ''cards'']"
  by (simp_all add: validateField.simps checks valid_text_def bare_array_def
      array_with_content_def example_env_def)

section \<open>Claims\<close>

text \<open>
  C1. For every component with a code, a title, tags that are an array, and a non-empty
  properties mapping whose fields are all fully populated, \<open>validateModule\<close> returns the
  empty list of diagnostics.
\<close>

theorem valid_component_no_diagnostics:
  assumes "valid_component E component"
  shows "validateModule E component = Some []"
proof -
  let ?props = "field component ''properties''"
  from assms have c: "truthy (field component ''code'')" "truthy (field component ''title'')"
      "isArray (field component ''tags'')" "truthy ?props"
    and f: "list_all (\<lambda>kv. fully_populated E (snd kv)) (for_in ?props)"
    by (simp_all add: valid_component_def)
  from c(1) have "component \<noteq> Undefined" "component \<noteq> Null" by (auto simp: field_def)
  then have g: "get component k = Some (field component k)" for k by (rule get_field_node)
  from c(3) have t: "truthy (field component ''tags'')"
    by (cases "field component ''tags''") simp_all
  have "validateField E (snd kv) (fst kv) = Some []" if "kv \<in> set (for_in ?props)" for kv
    using f that by (simp add: list_all_iff validateField_fully_populated)
  then have "for_each (for_in ?props) (\<lambda>v k. validateField E v k) [] = Some []"
    by (rule for_each_all_Nil)
  with c t show ?thesis by (simp add: validateModule_def g)
qed

theorem valid_component_no_diagnostics_witness:
  "valid_component example_env valid_example \<and> validateModule example_env valid_example = Some []"
proof -
  have v: "valid_component example_env valid_example"
    by (simp add: valid_component_def valid_example_def valid_text_def valid_image_def
        valid_link_def valid_button_def valid_array_def example_env_def field_Obj
        fully_populated_unfold nested_fields_def valid_type_def default_with_def)
  from valid_component_no_diagnostics [OF v] v show ?thesis by simp
qed

text \<open>
  C2. For a property with a rules object, the diagnostics that \<open>validateField\<close> pushes for
  the property itself contain the error with attribute \<^verbatim>\<open>rules.required\<close> exactly when
  \<^verbatim>\<open>rules.required\<close> is neither the boolean \<^verbatim>\<open>true\<close> nor the boolean \<^verbatim>\<open>false\<close>, and then once;
  with \<^verbatim>\<open>rules.required\<close> set to \<^verbatim>\<open>false\<close> there is none. The result is split into the
  diagnostics of the node and those of its nested fields, which report on other properties.
\<close>

theorem rules_required_exactly:
  assumes "property_tree p" and "truthy (field p ''rules'')"
  shows "\<exists>own. validateField E p key = Some (own @ nested_diags E p)
    \<and> filter (\<lambda>d. attribute d = ''rules.required'') own
      = (if field (field p ''rules'') ''required'' \<noteq> Bool False
            \<and> field (field p ''rules'') ''required'' \<noteq> Bool True
         then [err ''Field rules.required is required'' ''rules.required'' key] else [])"
proof -
  let ?P = "\<lambda>d. attribute d = ''rules.required''"
  obtain own where own: "node_diags E p key = Some own"
    and v: "validateField E p key = Some (own @ nested_diags E p)"
    using validateField_tree [OF assms(1)] by blast
  from own assms(2) obtain e_type e_description e_name e_default e_required e_content e_text
    e_array e_link e_button e_image
    where e: "type_check E p key = Some e_type" "description_check p key = Some e_description"
      "name_check p key = Some e_name" "default_check p key = Some e_default"
      "required_check (field p ''rules'') key = Some e_required"
      "content_check (field p ''rules'') key = Some e_content"
      "text_check p (field p ''rules'') key = Some e_text"
      "array_node_check E p (field p ''rules'') key = Some e_array"
      "link_check p key = Some e_link" "button_check p key = Some e_button"
      "image_check p (field p ''rules'') key = Some e_image"
    and o: "own = e_type @ e_description @ e_name @ e_default @ e_required @ e_content @ e_text
           @ e_array @ e_link @ e_button @ e_image"
    by (rule node_diags_rulesE)
  have "filter ?P e_type = []" "filter ?P e_description = []" "filter ?P e_name = []"
    "filter ?P e_default = []" "filter ?P e_content = []" "filter ?P e_text = []"
    "filter ?P e_array = []" "filter ?P e_link = []" "filter ?P e_button = []"
    "filter ?P e_image = []"
    using e(1) [THEN type_check_emits] e(2) [THEN description_check_emits]
      e(3) [THEN name_check_emits] e(4) [THEN default_check_emits]
      e(6) [THEN content_check_emits] e(7) [THEN text_check_emits]
      e(8) [THEN array_node_check_emits] e(9) [THEN link_check_emits]
      e(10) [THEN button_check_emits] e(11) [THEN image_check_emits]
    by (auto elim!: emits_filter)
  moreover have "e_required = (if field (field p ''rules'') ''required'' \<noteq> Bool False
            \<and> field (field p ''rules'') ''required'' \<noteq> Bool True
         then [err ''Field rules.required is required'' ''rules.required'' key] else [])"
    using e(5) assms(2) by (simp add: required_check_def get_field)
  ultimately have "filter ?P own = (if field (field p ''rules'') ''required'' \<noteq> Bool False
            \<and> field (field p ''rules'') ''required'' \<noteq> Bool True
         then [err ''Field rules.required is required'' ''rules.required'' key] else [])"
    by (simp add: o err_def)
  with v show ?thesis by blast
qed

theorem rules_required_exactly_witness:
  "property_tree optional_text \<and> truthy (field optional_text ''rules'')
   \<and> (\<exists>own. validateField example_env optional_text ''title''
          = Some (own @ nested_diags example_env optional_text)
        \<and> filter (\<lambda>d. attribute d = ''rules.required'') own = [])"
proof -
  have t: "property_tree optional_text"
    by (simp add: optional_text_def property_tree_unfold nested_fields_def
        coercions_return_def content_coercible_def items_coercible_def field_def)
  have r: "truthy (field optional_text ''rules'')"
    by (simp add: optional_text_def field_def)
  have q: "field (field optional_text ''rules'') ''required'' = Bool False"
    by (simp add: optional_text_def field_def)
  from rules_required_exactly [OF t r, of example_env "''title''"] t r show ?thesis
    by (simp add: q)
qed

text \<open>
  C3. For a property whose \<^verbatim>\<open>default\<close> is absent, the diagnostics of the property itself
  contain the warning with attribute \<^verbatim>\<open>default\<close> if and only if its type is not
  \<^verbatim>\<open>"array"\<close>: an array field with no default gets no such warning.
\<close>

theorem default_warning_unless_array:
  assumes "property_tree p" and "field p ''default'' = Undefined"
  shows "\<exists>own. validateField E p key = Some (own @ nested_diags E p)
    \<and> filter (\<lambda>d. attribute d = ''default'' \<and> severity d = Some Warning) own
      = (if field p ''type'' \<noteq> Str ''array''
         then [warn ''Field default is required'' ''default'' key] else [])"
proof -
  let ?P = "\<lambda>d. attribute d = ''default'' \<and> severity d = Some Warning"
  let ?w = "if field p ''type'' \<noteq> Str ''array''
         then [warn ''Field default is required'' ''default'' key] else []"
  obtain own where own: "node_diags E p key = Some own"
    and v: "validateField E p key = Some (own @ nested_diags E p)"
    using validateField_tree [OF assms(1)] by blast
  have p: "p \<noteq> Undefined" "p \<noteq> Null" using node_diags_node [OF own] by simp_all
  have d: "default_check p key = Some ?w"
    using p assms(2) by (simp add: default_check_def get_field_node)
  have "filter ?P own = ?w"
  proof (cases "truthy (field p ''rules'')")
    case False
    with own obtain e_type e_description e_name e_default
      where e: "type_check E p key = Some e_type" "description_check p key = Some e_description"
        "name_check p key = Some e_name" "default_check p key = Some e_default"
      and o: "own = e_type @ e_description @ e_name @ e_default
           @ [warn ''Field rules are required'' ''rules'' key]"
      by (rule node_diags_no_rulesE)
    have "filter ?P e_type = []" "filter ?P e_description = []" "filter ?P e_name = []"
      using e(1) [THEN type_check_emits] e(2) [THEN description_check_emits]
        e(3) [THEN name_check_emits]
      by (auto elim!: emits_filter)
    moreover have "e_default = ?w" using e(4) d by simp
    ultimately show ?thesis by (simp add: o warn_def)
  next
    case True
    with own obtain e_type e_description e_name e_default e_required e_content e_text
      e_array e_link e_button e_image
      where e: "type_check E p key = Some e_type" "description_check p key = Some e_description"
        "name_check p key = Some e_name" "default_check p key = Some e_default"
        "required_check (field p ''rules'') key = Some e_required"
        "content_check (field p ''rules'') key = Some e_content"
        "text_check p (field p ''rules'') key = Some e_text"
        "array_node_check E p (field p ''rules'') key = Some e_array"
        "link_check p key = Some e_link" "button_check p key = Some e_button"
        "image_check p (field p ''rules'') key = Some e_image"
      and o: "own = e_type @ e_description @ e_name @ e_default @ e_required @ e_content
           @ e_text @ e_array @ e_link @ e_button @ e_image"
      by (rule node_diags_rulesE)
    have "filter ?P e_type = []" "filter ?P e_description = []" "filter ?P e_name = []"
      "filter ?P e_required = []" "filter ?P e_content = []" "filter ?P e_text = []"
      "filter ?P e_array = []" "filter ?P e_link = []" "filter ?P e_button = []"
      "filter ?P e_image = []"
      using e(1) [THEN type_check_emits] e(2) [THEN description_check_emits]
        e(3) [THEN name_check_emits] e(5) [THEN required_check_emits]
        e(6) [THEN content_check_emits] e(7) [THEN text_check_emits]
        e(8) [THEN array_node_check_emits] e(9) [THEN link_check_emits]
        e(10) [THEN button_check_emits] e(11) [THEN image_check_emits]
      by (auto elim!: emits_filter)
    moreover have "e_default = ?w" using e(4) d by simp
    ultimately show ?thesis by (simp add: o warn_def)
  qed
  with v show ?thesis by blast
qed

theorem default_warning_unless_array_witness:
  "property_tree bare_array \<and> field bare_array ''default'' = Undefined
   \<and> (\<exists>own. validateField example_env bare_array ''cards''
          = Some (own @ nested_diags example_env bare_array)
        \<and> filter (\<lambda>d. attribute d = ''default'' \<and> severity d = Some Warning) own = [])"
proof -
  have t: "property_tree bare_array"
    by (simp add: bare_array_def property_tree_unfold nested_fields_def
        coercions_return_def content_coercible_def items_coercible_def field_def)
  have d: "field bare_array ''default'' = Undefined"
    by (simp add: bare_array_def field_def)
  have a: "field bare_array ''type'' = Str ''array''"
    by (simp add: bare_array_def field_def)
  from default_warning_unless_array [OF t d, of example_env "''cards''"] t d show ?thesis
    by (simp add: a)
qed

text \<open>
  C4, as stated, fails. An array field without a \<^verbatim>\<open>rules\<close> object has a nested field
  \<^verbatim>\<open>title\<close> in \<^verbatim>\<open>items.properties\<close> that lacks its type. The branch for arrays is inside the
  \<^verbatim>\<open>else\<close> of line 70, so the nested field is not visited: the result is the single warning
  that the rules are missing.
\<close>

theorem nested_type_counterexample:
  "field array_without_rules ''type'' = Str ''array''
   \<and> for_in (field (field array_without_rules ''items'') ''properties'')
       = [(''title'', Obj [(''name'', Str ''Title'')])]
   \<and> \<not> truthy (field (Obj [(''name'', Str ''Title'')]) ''type'')
   \<and> validateField example_env array_without_rules ''cards''
       = Some [warn ''Field rules are required'' ''rules'' ''cards'']"
  by (simp add: validateField.simps checks array_without_rules_def example_env_def field_Obj)

text \<open>
  C4, amended. For an array field with a \<^verbatim>\<open>rules\<close> object whose \<^verbatim>\<open>items.properties\<close> contains
  a nested field \<open>k\<close> that lacks its type, the result is the diagnostics of the array, all
  under the key of the array, followed by the results of the nested fields concatenated into
  one flat list, and this second part contains the error with attribute \<^verbatim>\<open>type\<close> under the
  key \<open>k\<close> of the nested field.
\<close>

theorem nested_type_reported_under_own_key:
  assumes "property_tree p" and "truthy (field p ''rules'')"
    and "field p ''type'' = Str ''array''"
    and "(k, v) \<in> set (for_in (field (field p ''items'') ''properties''))"
    and "\<not> truthy (field v ''type'')"
  shows "\<exists>own. validateField E p key = Some (own @ nested_diags E p)
    \<and> (\<forall>d\<in>set own. property d = Some key)
    \<and> nested_diags E p
        = concat (map (nested_result E) (for_in (field (field p ''items'') ''properties'')))
    \<and> err ''Field type is required'' ''type'' k \<in> set (nested_diags E p)"
proof -
  have props: "truthy (field (field p ''items'') ''properties'')"
    using assms(4) by (rule for_in_truthy)
  then have items: "truthy (field p ''items'')" by (rule truthy_field)
  note hyp = assms(1-3) items props assms(4-5)
  obtain own where own: "node_diags E p key = Some own"
    and v: "validateField E p key = Some (own @ nested_diags E p)"
    using validateField_tree [OF hyp(1)] by blast
  have n: "nested_fields p = for_in (field (field p ''items'') ''properties'')"
    using hyp(2-5) by (simp add: nested_fields_def)
  with hyp(6) have kv: "(k, v) \<in> set (nested_fields p)" by simp
  with hyp(1) have "property_tree (snd (k, v))" by (rule property_tree_nested)
  then have t: "property_tree v" by simp
  then obtain own' where own': "node_diags E v k = Some own'"
    and v': "validateField E v k = Some (own' @ nested_diags E v)"
    using validateField_tree by blast
  have nn: "v \<noteq> Undefined" "v \<noteq> Null" using t property_tree_node by blast+
  then have "type_check E v k = Some [err ''Field type is required'' ''type'' k]"
    using hyp(7) by (simp add: type_check_def get_field_node)
  with node_diags_type_first [OF own']
  have "err ''Field type is required'' ''type'' k \<in> set own'" by auto
  with v' have "err ''Field type is required'' ''type'' k \<in> set (nested_result E (k, v))"
    by (simp add: nested_result_def)
  with kv have "err ''Field type is required'' ''type'' k \<in> set (nested_diags E p)"
    by (auto simp: nested_diags_def)
  moreover have "nested_diags E p
      = concat (map (nested_result E) (for_in (field (field p ''items'') ''properties'')))"
    by (simp add: nested_diags_def n)
  moreover have "\<forall>d\<in>set own. property d = Some key"
    using node_diags_property [OF own] by blast
  ultimately show ?thesis using v by blast
qed

theorem nested_type_reported_under_own_key_witness:
  "property_tree array_of_untyped \<and> truthy (field array_of_untyped ''rules'')
   \<and> field array_of_untyped ''type'' = Str ''array''
   \<and> truthy (field array_of_untyped ''items'')
   \<and> truthy (field (field array_of_untyped ''items'') ''properties'')
   \<and> (''title'', Obj [(''name'', Str ''Title'')])
       \<in> set (for_in (field (field array_of_untyped ''items'') ''properties''))
   \<and> \<not> truthy (field (Obj [(''name'', Str ''Title'')]) ''type'')
   \<and> (\<exists>own. validateField example_env array_of_untyped ''cards''
          = Some (own @ nested_diags example_env array_of_untyped)
      \<and> (\<forall>d\<in>set own. property d = Some ''cards'')
      \<and> err ''Field type is required'' ''type'' ''title''
          \<in> set (nested_diags example_env array_of_untyped))"
proof -
  have t: "property_tree array_of_untyped"
    by (simp add: array_of_untyped_def property_tree_unfold nested_fields_def
        coercions_return_def content_coercible_def items_coercible_def field_Obj)
  have h: "truthy (field array_of_untyped ''rules'')"
    "field array_of_untyped ''type'' = Str ''array''"
    "truthy (field array_of_untyped ''items'')"
    "truthy (field (field array_of_untyped ''items'') ''properties'')"
    "(''title'', Obj [(''name'', Str ''Title'')])
       \<in> set (for_in (field (field array_of_untyped ''items'') ''properties''))"
    "\<not> truthy (field (Obj [(''name'', Str ''Title'')]) ''type'')"
    by (simp_all add: array_of_untyped_def field_Obj)
  from nested_type_reported_under_own_key [OF t h(1,2,5,6), of example_env "''cards''"] t h
  show ?thesis by blast
qed

text \<open>
  C5. For an array field with a \<^verbatim>\<open>rules.content\<close> object, a minimum that is a number below
  one, in particular 0 and -1, gives an error with attribute \<^verbatim>\<open>rules.content.min\<close> among the
  diagnostics of the field. Zero is falsy, so it gets the error of a missing minimum (line 116);
  any other number below one gets the error of line 123. Zero is never a valid minimum.
\<close>

theorem array_min_below_one:
  assumes "property_tree p"
    and "field p ''type'' = Str ''array''"
    and "truthy (field (field p ''rules'') ''content'')"
    and "field (field (field p ''rules'') ''content'') ''min'' = Num r" and "r < 1"
  shows "\<exists>own. validateField E p key = Some (own @ nested_diags E p)
    \<and> err (if r = 0 then ''Array fields must have a minimum content length''
            else ''Array fields must have a maximum content length'')
         ''rules.content.min'' key \<in> set own"
proof -
  have rules: "truthy (field p ''rules'')" using assms(3) by (rule truthy_field)
  note hyp = assms(1) rules assms(2-5)
  obtain own where own: "node_diags E p key = Some own"
    and v: "validateField E p key = Some (own @ nested_diags E p)"
    using validateField_tree [OF hyp(1)] by blast
  from own hyp(2) obtain e_type e_description e_name e_default e_required e_content e_text
    e_array e_link e_button e_image
    where e: "array_node_check E p (field p ''rules'') key = Some e_array"
    and o: "own = e_type @ e_description @ e_name @ e_default @ e_required @ e_content @ e_text
           @ e_array @ e_link @ e_button @ e_image"
    by (rule node_diags_rulesE)
  from e hyp(3) obtain a b where a: "array_content_check E (field p ''rules'') key = Some a"
    and ab: "e_array = a @ b"
    by (rule array_node_check_array)
  have cc: "content_coercible (field p ''rules'')"
    using hyp(1,2,3) by (rule property_tree_content)
  have "err (if r = 0 then ''Array fields must have a minimum content length''
            else ''Array fields must have a maximum content length'')
         ''rules.content.min'' key \<in> set a"
    using a hyp(6) unfolding array_content_check_eq [OF hyp(2,4) cc] hyp(5) by auto
  with v show ?thesis by (auto simp: o ab)
qed

theorem array_min_below_one_witness:
  "(\<exists>own. validateField example_env (array_with_content (Obj [(''min'', Num 0), (''max'', Num 4)]))
           ''cards''
        = Some (own @ nested_diags example_env
            (array_with_content (Obj [(''min'', Num 0), (''max'', Num 4)])))
      \<and> err ''Array fields must have a minimum content length'' ''rules.content.min'' ''cards''
          \<in> set own)
   \<and> (\<exists>own. validateField example_env
           (array_with_content (Obj [(''min'', Num (- 1)), (''max'', Num 4)])) ''cards''
        = Some (own @ nested_diags example_env
            (array_with_content (Obj [(''min'', Num (- 1)), (''max'', Num 4)])))
      \<and> err ''Array fields must have a maximum content length'' ''rules.content.min'' ''cards''
          \<in> set own)"
proof -
  have h: "truthy (field (array_with_content c) ''rules'')"
    "field (array_with_content c) ''type'' = Str ''array''"
    "field (field (array_with_content c) ''rules'') ''content'' = c" for c
    by (simp_all add: array_with_content_def field_Obj)
  let ?zero = "Obj [(''min'', Num 0), (''max'', Num 4)]"
  let ?neg = "Obj [(''min'', Num (- 1)), (''max'', Num 4)]"
  have z: "truthy (field (field (array_with_content ?zero) ''rules'') ''content'')"
    "field (field (field (array_with_content ?zero) ''rules'') ''content'') ''min'' = Num 0"
    by (simp_all add: h field_Obj)
  have n: "truthy (field (field (array_with_content ?neg) ''rules'') ''content'')"
    "field (field (field (array_with_content ?neg) ''rules'') ''content'') ''min'' = Num (- 1)"
    by (simp_all add: h field_Obj)
  have pz: "property_tree (array_with_content ?zero)"
    by (rule property_tree_array_with_content) (simp_all add: field_Obj)
  have pn: "property_tree (array_with_content ?neg)"
    by (rule property_tree_array_with_content) (simp_all add: field_Obj)
  from array_min_below_one [OF pz h(2) z, of example_env "''cards''"]
    array_min_below_one [OF pn h(2) n, of example_env "''cards''"]
  show ?thesis by simp
qed

text \<open>
  C6. For a property with a \<^verbatim>\<open>rules.content\<close> object, the diagnostics of the property are
  \<open>a @ w @ b\<close>, where \<open>w\<close> are the generic warnings: the warning for a missing minimum,
  present exactly when the minimum is missing and \<^verbatim>\<open>rules.required\<close> is the boolean \<^verbatim>\<open>true\<close>,
  then the warning for a missing maximum, present exactly when the maximum is missing, whatever
  the type and the required flag. Before them, \<open>a\<close> holds only the diagnostics of the type,
  description, name, default and required flag; after them, \<open>b\<close> holds the checks by type,
  all errors, which for an array with a missing maximum report the maximum once more.
\<close>

theorem generic_content_warnings:
  assumes "property_tree p"
    and "truthy (field (field p ''rules'') ''content'')"
  shows "\<exists>a b. validateField E p key = Some ((a
        @ ((if \<not> truthy (field (field (field p ''rules'') ''content'') ''min'')
               \<and> field (field p ''rules'') ''required'' = Bool True
            then [warn ''Content rules must have a minimum length'' ''rules.content.min'' key]
            else [])
         @ (if \<not> truthy (field (field (field p ''rules'') ''content'') ''max'')
            then [warn ''Content rules must have a maximum length'' ''rules.content.min'' key]
            else []))
        @ b) @ nested_diags E p)
    \<and> (\<forall>d\<in>set a. attribute d
          \<in> {''type'', ''description'', ''name'', ''default'', ''rules.required''})
    \<and> (\<forall>d\<in>set b. severity d = Some Error)
    \<and> (field p ''type'' = Str ''array''
          \<and> \<not> truthy (field (field (field p ''rules'') ''content'') ''max'')
        \<longrightarrow> err ''Content rules must have a maximum length'' ''rules.content.min'' key \<in> set b)"
proof -
  have rules: "truthy (field p ''rules'')" using assms(2) by (rule truthy_field)
  note hyp = assms(1) rules assms(2)
  let ?r = "field p ''rules''"
  obtain own where own: "node_diags E p key = Some own"
    and v: "validateField E p key = Some (own @ nested_diags E p)"
    using validateField_tree [OF hyp(1)] by blast
  from own hyp(2) obtain e_type e_description e_name e_default e_required e_content e_text
    e_array e_link e_button e_image
    where e: "type_check E p key = Some e_type" "description_check p key = Some e_description"
      "name_check p key = Some e_name" "default_check p key = Some e_default"
      "required_check ?r key = Some e_required"
      "content_check ?r key = Some e_content"
      "text_check p ?r key = Some e_text"
      "array_node_check E p ?r key = Some e_array"
      "link_check p key = Some e_link" "button_check p key = Some e_button"
      "image_check p ?r key = Some e_image"
    and o: "own = e_type @ e_description @ e_name @ e_default @ e_required @ e_content @ e_text
           @ e_array @ e_link @ e_button @ e_image"
    by (rule node_diags_rulesE)
  let ?a = "e_type @ e_description @ e_name @ e_default @ e_required"
  let ?b = "e_text @ e_array @ e_link @ e_button @ e_image"
  have a: "\<forall>d\<in>set ?a. attribute d
          \<in> {''type'', ''description'', ''name'', ''default'', ''rules.required''}"
    using e(1) [THEN type_check_emits, THEN emits_attribute]
      e(2) [THEN description_check_emits, THEN emits_attribute]
      e(3) [THEN name_check_emits, THEN emits_attribute]
      e(4) [THEN default_check_emits, THEN emits_attribute]
      e(5) [THEN required_check_emits, THEN emits_attribute]
    by auto
  have b: "\<forall>d\<in>set ?b. severity d = Some Error"
    using e(7) [THEN text_check_emits, THEN emits_severity]
      e(8) [THEN array_node_check_emits, THEN emits_severity]
      e(9) [THEN link_check_emits, THEN emits_severity]
      e(10) [THEN button_check_emits, THEN emits_severity]
      e(11) [THEN image_check_emits, THEN emits_severity]
    by auto
  have c: "err ''Content rules must have a maximum length'' ''rules.content.min'' key \<in> set ?b"
    if t: "field p ''type'' = Str ''array''"
      and m: "\<not> truthy (field (field ?r ''content'') ''max'')"
  proof -
    from e(8) t obtain x y where x: "array_content_check E ?r key = Some x"
      and xy: "e_array = x @ y"
      by (rule array_node_check_array)
    have cc: "content_coercible ?r" using hyp(1,2) t by (rule property_tree_content)
    from x m have "err ''Content rules must have a maximum length'' ''rules.content.min'' key
        \<in> set x"
      unfolding array_content_check_eq [OF hyp(2,3) cc] by auto
    then show ?thesis by (simp add: xy)
  qed
  have "own = ?a @ e_content @ ?b" by (simp add: o)
  with v e(6) a b c show ?thesis
    unfolding content_check_eq [OF hyp(2,3)] by blast
qed

theorem generic_content_warnings_witness:
  "property_tree (array_with_content (Obj []))
   \<and> truthy (field (array_with_content (Obj [])) ''rules'')
   \<and> truthy (field (field (array_with_content (Obj [])) ''rules'') ''content'')
   \<and> (\<exists>a b. validateField example_env (array_with_content (Obj [])) ''cards''
        = Some ((a
            @ [warn ''Content rules must have a maximum length'' ''rules.content.min'' ''cards'']
            @ b) @ nested_diags example_env (array_with_content (Obj [])))
      \<and> (\<forall>d\<in>set a. attribute d
            \<in> {''type'', ''description'', ''name'', ''default'', ''rules.required''})
      \<and> (\<forall>d\<in>set b. severity d = Some Error)
      \<and> err ''Content rules must have a maximum length'' ''rules.content.min'' ''cards''
          \<in> set b)"
proof -
  let ?p = "array_with_content (Obj [])"
  have h: "truthy (field ?p ''rules'')" "truthy (field (field ?p ''rules'') ''content'')"
    by (simp_all add: array_with_content_def field_Obj)
  have f: "field ?p ''type'' = Str ''array''"
    "field (field ?p ''rules'') ''required'' = Bool False"
    "field (field (field ?p ''rules'') ''content'') ''min'' = Undefined"
    "field (field (field ?p ''rules'') ''content'') ''max'' = Undefined"
    by (simp_all add: array_with_content_def field_Obj)
  have pt: "property_tree ?p"
    by (rule property_tree_array_with_content) (simp_all add: field_Obj)
  from generic_content_warnings [OF pt h(2), of example_env "''cards''"] pt h
  show ?thesis by (simp add: f)
qed

text \<open>
  C7, as stated, fails. Two array fields differ only in \<^verbatim>\<open>rules.content.min\<close>, absent in the
  first and -1 in the second. Each gets one diagnostic, with the message of line 118 for the
  first and of line 125 for the second, and the two messages differ.
\<close>

theorem array_min_messages_counterexample:
  "validateField example_env (array_with_content (Obj [(''max'', Num 4)])) ''cards''
     = Some [err ''Array fields must have a minimum content length'' ''rules.content.min''
              ''cards'']
   \<and> validateField example_env (array_with_content (Obj [(''min'', Num (- 1)), (''max'', Num 4)]))
       ''cards''
     = Some [err ''Array fields must have a maximum content length'' ''rules.content.min''
              ''cards'']
   \<and> message (err ''Array fields must have a minimum content length'' ''rules.content.min''
         ''cards'')
     \<noteq> message (err ''Array fields must have a maximum content length'' ''rules.content.min''
         ''cards'')"
  by (simp add: validateField.simps checks array_with_content_def example_env_def err_def)

text \<open>
  C7, amended. For an array field with \<^verbatim>\<open>rules.content\<close> present, the error for an absent
  minimum and the error for a minimum below one stand at the same place, as the first error of
  the field with attribute \<^verbatim>\<open>rules.content.min\<close>, and they agree in attribute, property key
  and severity. The message texts are left open.
\<close>

theorem array_min_errors_agree:
  assumes "property_tree p"
    and "field p ''type'' = Str ''array''"
    and "truthy (field (field p ''rules'') ''content'')"
    and "\<not> truthy (field (field (field p ''rules'') ''content'') ''min'')
         \<or> lt_one E (field (field (field p ''rules'') ''content'') ''min'') = Some True"
  shows "\<exists>a b m. validateField E p key
        = Some ((a @ err m ''rules.content.min'' key # b) @ nested_diags E p)
    \<and> (\<forall>d\<in>set a. attribute d = ''rules.content.min'' \<longrightarrow> severity d \<noteq> Some Error)"
proof -
  have rules: "truthy (field p ''rules'')" using assms(3) by (rule truthy_field)
  note hyp = assms(1) rules assms(2-4)
  let ?r = "field p ''rules''"
  let ?c = "field ?r ''content''"
  obtain own where own: "node_diags E p key = Some own"
    and v: "validateField E p key = Some (own @ nested_diags E p)"
    using validateField_tree [OF hyp(1)] by blast
  from own hyp(2) obtain e_type e_description e_name e_default e_required e_content e_text
    e_array e_link e_button e_image
    where e: "type_check E p key = Some e_type" "description_check p key = Some e_description"
      "name_check p key = Some e_name" "default_check p key = Some e_default"
      "required_check ?r key = Some e_required"
      "content_check ?r key = Some e_content"
      "text_check p ?r key = Some e_text"
      "array_node_check E p ?r key = Some e_array"
    and o: "own = e_type @ e_description @ e_name @ e_default @ e_required @ e_content @ e_text
           @ e_array @ e_link @ e_button @ e_image"
    by (rule node_diags_rulesE)
  from e(8) hyp(3) obtain x y where x: "array_content_check E ?r key = Some x"
    and xy: "e_array = x @ y"
    by (rule array_node_check_array)
  let ?a = "e_type @ e_description @ e_name @ e_default @ e_required @ e_content @ e_text"
  have a: "\<forall>d\<in>set ?a. attribute d = ''rules.content.min'' \<longrightarrow> severity d \<noteq> Some Error"
    using e(1) [THEN type_check_emits, THEN emits_no_pair, of "''rules.content.min''" Error]
      e(2) [THEN description_check_emits, THEN emits_no_pair, of "''rules.content.min''" Error]
      e(3) [THEN name_check_emits, THEN emits_no_pair, of "''rules.content.min''" Error]
      e(4) [THEN default_check_emits, THEN emits_no_pair, of "''rules.content.min''" Error]
      e(5) [THEN required_check_emits, THEN emits_no_pair, of "''rules.content.min''" Error]
      e(6) [THEN content_check_emits, THEN emits_no_pair, of "''rules.content.min''" Error]
      e(7) [THEN text_check_emits, THEN emits_no_pair, of "''rules.content.min''" Error]
    by auto
  have cc: "content_coercible ?r" using hyp(1,2,3) by (rule property_tree_content)
  from x hyp(5) obtain m z where "x = err m ''rules.content.min'' key # z"
    unfolding array_content_check_eq [OF hyp(2,4) cc] lt_one_min [OF cc hyp(4)]
    by (auto split: if_splits)
  then have "own = ?a @ err m ''rules.content.min'' key
      # (z @ y @ e_link @ e_button @ e_image)"
    by (simp add: o xy)
  with v a show ?thesis by blast
qed

theorem array_min_errors_agree_witness:
  "(\<exists>a b m. validateField example_env (array_with_content (Obj [(''max'', Num 4)])) ''cards''
        = Some ((a @ err m ''rules.content.min'' ''cards'' # b)
            @ nested_diags example_env (array_with_content (Obj [(''max'', Num 4)])))
      \<and> (\<forall>d\<in>set a. attribute d = ''rules.content.min'' \<longrightarrow> severity d \<noteq> Some Error))
   \<and> (\<exists>a b m. validateField example_env
           (array_with_content (Obj [(''min'', Num (- 1)), (''max'', Num 4)])) ''cards''
        = Some ((a @ err m ''rules.content.min'' ''cards'' # b)
            @ nested_diags example_env
                (array_with_content (Obj [(''min'', Num (- 1)), (''max'', Num 4)])))
      \<and> (\<forall>d\<in>set a. attribute d = ''rules.content.min'' \<longrightarrow> severity d \<noteq> Some Error))"
proof -
  have h: "truthy (field (array_with_content c) ''rules'')"
    "field (array_with_content c) ''type'' = Str ''array''"
    "field (field (array_with_content c) ''rules'') ''content'' = c" for c
    by (simp_all add: array_with_content_def field_Obj)
  let ?absent = "Obj [(''max'', Num 4)]"
  let ?neg = "Obj [(''min'', Num (- 1)), (''max'', Num 4)]"
  have a: "truthy (field (field (array_with_content ?absent) ''rules'') ''content'')"
    "\<not> truthy (field (field (field (array_with_content ?absent) ''rules'') ''content'') ''min'')
     \<or> lt_one example_env
         (field (field (field (array_with_content ?absent) ''rules'') ''content'') ''min'')
        = Some True"
    by (simp_all add: h field_Obj)
  have n: "truthy (field (field (array_with_content ?neg) ''rules'') ''content'')"
    "\<not> truthy (field (field (field (array_with_content ?neg) ''rules'') ''content'') ''min'')
     \<or> lt_one example_env
         (field (field (field (array_with_content ?neg) ''rules'') ''content'') ''min'')
        = Some True"
    by (simp_all add: h field_Obj lt_one_def)
  have pa: "property_tree (array_with_content ?absent)"
    by (rule property_tree_array_with_content) (simp_all add: field_Obj)
  have pn: "property_tree (array_with_content ?neg)"
    by (rule property_tree_array_with_content) (simp_all add: field_Obj)
  from array_min_errors_agree [OF pa h(2) a, of "''cards''"]
    array_min_errors_agree [OF pn h(2) n, of "''cards''"]
  show ?thesis by blast
qed

text \<open>
  C8, as stated, fails. The validator throws on two malformed trees in which every \<^verbatim>\<open>rules\<close>,
  \<^verbatim>\<open>content\<close>, \<^verbatim>\<open>dimensions\<close> and \<^verbatim>\<open>items\<close> that is present is an object. In the first, the type
  of the field is an object with a property \<^verbatim>\<open>toString\<close> that is no function: the type is truthy
  and no field type, and the template literal of line 32 throws a TypeError when it turns the
  object into text. In the second, a nested field of an array field is \<^verbatim>\<open>null\<close>: the loop of
  line 177 passes it to the validator, whose first read, of \<^verbatim>\<open>property.type\<close> on line 23, throws.
  In both cases no list of diagnostics is returned.
\<close>

theorem validateField_throws_counterexample:
  "validateField example_env typed_by_object ''a'' = None
   \<and> validateField example_env array_of_null ''a'' = None"
  by (simp add: validateField.simps checks typed_by_object_def array_of_null_def example_env_def)

text \<open>
  C8, amended. The validator returns, and does not throw, on every tree of properties: a
  property in which the node and every nested field that the validator visits is neither
  \<^verbatim>\<open>null\<close> nor \<^verbatim>\<open>undefined\<close>, and in which the values that a node coerces to text or to a number
  (its type; for an array field with rules, the minimum and maximum of a present content
  and the type of present items) hold no object with a property \<^verbatim>\<open>toString\<close> of its own. The
  nodes may be malformed in any other way; \<^verbatim>\<open>rules\<close>, \<^verbatim>\<open>content\<close>, \<^verbatim>\<open>dimensions\<close> and \<^verbatim>\<open>items\<close>
  may be any value. The result is then the list of the diagnostics of the node itself, which
  are all computed, followed by the complete results of all its nested fields in order, each
  of which returns as well: no diagnostic ends the traversal. A property read below a missing
  object would make the result \<open>None\<close>, so none is performed on a tree. Outside the trees
  the validator throws (\<open>validateField_not_tree\<close>). The depth of the call stack is unbounded
  here.
\<close>

theorem validateField_returns_on_trees:
  assumes "property_tree p"
  shows "\<exists>own. node_diags E p key = Some own
    \<and> validateField E p key = Some (own @ nested_diags E p)
    \<and> list_all (\<lambda>kv. validateField E (snd kv) (fst kv) \<noteq> None) (nested_fields p)"
proof -
  obtain own where own: "node_diags E p key = Some own"
    "validateField E p key = Some (own @ nested_diags E p)"
    using validateField_tree [OF assms] by blast
  have "list_all (\<lambda>kv. validateField E (snd kv) (fst kv) \<noteq> None) (nested_fields p)"
    unfolding list_all_iff
  proof
    fix kv assume "kv \<in> set (nested_fields p)"
    with assms have "property_tree (snd kv)" by (rule property_tree_nested)
    then obtain ds where "validateField E (snd kv) (fst kv) = Some ds"
      using validateField_tree by blast
    then show "validateField E (snd kv) (fst kv) \<noteq> None" by simp
  qed
  with own show ?thesis by blast
qed

theorem validateField_returns_on_trees_witness:
  "property_tree malformed_array \<and>
   (\<exists>own. node_diags example_env malformed_array ''a'' = Some own
    \<and> validateField example_env malformed_array ''a''
        = Some (own @ nested_diags example_env malformed_array)
    \<and> list_all (\<lambda>kv. validateField example_env (snd kv) (fst kv) \<noteq> None)
         (nested_fields malformed_array))"
proof -
  have t: "property_tree malformed_array"
    by (simp add: malformed_array_def property_tree_unfold nested_fields_def
        coercions_return_def content_coercible_def items_coercible_def field_Obj)
  from validateField_returns_on_trees [OF t] t show ?thesis by blast
qed

text \<open>
  C9. For a property with \<^verbatim>\<open>rules.content\<close> present and \<^verbatim>\<open>rules.content.max\<close> missing, the
  generic warning for the missing maximum carries the attribute \<^verbatim>\<open>rules.content.min\<close>, and so
  does the error of the array branch; no diagnostic of the property carries
  \<^verbatim>\<open>rules.content.max\<close>. In the whole result, a diagnostic with attribute
  \<^verbatim>\<open>rules.content.max\<close> is always the error for a maximum below one.
\<close>

theorem missing_max_labelled_min:
  assumes "property_tree p"
    and "truthy (field (field p ''rules'') ''content'')"
    and "\<not> truthy (field (field (field p ''rules'') ''content'') ''max'')"
  shows "\<exists>own. validateField E p key = Some (own @ nested_diags E p)
    \<and> warn ''Content rules must have a maximum length'' ''rules.content.min'' key \<in> set own
    \<and> (field p ''type'' = Str ''array''
        \<longrightarrow> err ''Content rules must have a maximum length'' ''rules.content.min'' key \<in> set own)
    \<and> (\<forall>d\<in>set own. attribute d \<noteq> ''rules.content.max'')
    \<and> (\<forall>d\<in>set (own @ nested_diags E p). attribute d = ''rules.content.max''
        \<longrightarrow> message d = ''Content rules maximum length must be greater than 0''
          \<and> severity d = Some Error)"
proof -
  have rules: "truthy (field p ''rules'')" using assms(2) by (rule truthy_field)
  note hyp = assms(1) rules assms(2-3)
  let ?r = "field p ''rules''"
  obtain own where own: "node_diags E p key = Some own"
    and v: "validateField E p key = Some (own @ nested_diags E p)"
    using validateField_tree [OF hyp(1)] by blast
  from own hyp(2) obtain e_type e_description e_name e_default e_required e_content e_text
    e_array e_link e_button e_image
    where e: "content_check ?r key = Some e_content"
      "array_node_check E p ?r key = Some e_array"
    and o: "own = e_type @ e_description @ e_name @ e_default @ e_required @ e_content @ e_text
           @ e_array @ e_link @ e_button @ e_image"
    by (rule node_diags_rulesE)
  from e(1) hyp(4)
  have "warn ''Content rules must have a maximum length'' ''rules.content.min'' key
      \<in> set e_content"
    unfolding content_check_eq [OF hyp(2,3)] by auto
  then have w: "warn ''Content rules must have a maximum length'' ''rules.content.min'' key
      \<in> set own"
    by (simp add: o)
  have a: "err ''Content rules must have a maximum length'' ''rules.content.min'' key \<in> set own"
    if t: "field p ''type'' = Str ''array''"
  proof -
    from e(2) t obtain x y where x: "array_content_check E ?r key = Some x"
      and xy: "e_array = x @ y"
      by (rule array_node_check_array)
    have cc: "content_coercible ?r" using hyp(1,2) t by (rule property_tree_content)
    from x hyp(4)
    have "err ''Content rules must have a maximum length'' ''rules.content.min'' key \<in> set x"
      unfolding array_content_check_eq [OF hyp(2,3) cc] by auto
    then show ?thesis by (simp add: o xy)
  qed
  have n: "\<forall>d\<in>set own. attribute d \<noteq> ''rules.content.max''"
    using node_diags_max [OF own] hyp(4) by blast
  have g: "\<forall>d\<in>set (own @ nested_diags E p). attribute d = ''rules.content.max''
        \<longrightarrow> message d = ''Content rules maximum length must be greater than 0''
          \<and> severity d = Some Error"
    using validateField_max [OF hyp(1) v] by blast
  from v w a n g show ?thesis by blast
qed

theorem missing_max_labelled_min_witness:
  "property_tree (array_with_content (Obj []))
   \<and> truthy (field (array_with_content (Obj [])) ''rules'')
   \<and> truthy (field (field (array_with_content (Obj [])) ''rules'') ''content'')
   \<and> \<not> truthy (field (field (field (array_with_content (Obj [])) ''rules'') ''content'') ''max'')
   \<and> (\<exists>own. validateField example_env (array_with_content (Obj [])) ''cards''
        = Some (own @ nested_diags example_env (array_with_content (Obj [])))
      \<and> warn ''Content rules must have a maximum length'' ''rules.content.min'' ''cards''
          \<in> set own
      \<and> err ''Content rules must have a maximum length'' ''rules.content.min'' ''cards''
          \<in> set own
      \<and> (\<forall>d\<in>set own. attribute d \<noteq> ''rules.content.max''))"
proof -
  let ?p = "array_with_content (Obj [])"
  have h: "truthy (field ?p ''rules'')" "truthy (field (field ?p ''rules'') ''content'')"
    "\<not> truthy (field (field (field ?p ''rules'') ''content'') ''max'')"
    by (simp_all add: array_with_content_def field_Obj)
  have f: "field ?p ''type'' = Str ''array''"
    by (simp add: array_with_content_def field_Obj)
  have pt: "property_tree ?p"
    by (rule property_tree_array_with_content) (simp_all add: field_Obj)
  from missing_max_labelled_min [OF pt h(2,3), of example_env "''cards''"] pt h f
  show ?thesis by blast
qed

text \<open>
  C10. For a link, button or image field with a rules object and an absent \<^verbatim>\<open>default\<close>, the
  diagnostics of the field with attribute \<^verbatim>\<open>default\<close> are exactly two, for the same
  omission: the generic warning, then the error of the branch for the type.
\<close>

theorem default_reported_twice:
  assumes "property_tree p" and "truthy (field p ''rules'')"
    and "field p ''default'' = Undefined"
    and "field p ''type'' \<in> {Str ''link'', Str ''button'', Str ''image''}"
  shows "\<exists>own. validateField E p key = Some (own @ nested_diags E p)
    \<and> filter (\<lambda>d. attribute d = ''default'') own
      = [warn ''Field default is required'' ''default'' key,
         err (if field p ''type'' = Str ''image'' then ''Default is required for image fields''
              else ''Default is required for link fields'') ''default'' key]"
proof -
  let ?P = "\<lambda>d. attribute d = ''default''"
  let ?t = "field p ''type''"
  obtain own where own: "node_diags E p key = Some own"
    and v: "validateField E p key = Some (own @ nested_diags E p)"
    using validateField_tree [OF assms(1)] by blast
  have p: "p \<noteq> Undefined" "p \<noteq> Null" using node_diags_node [OF own] by simp_all
  have g: "get p k = Some (field p k)" for k using p by (rule get_field_node)
  from own assms(2) obtain e_type e_description e_name e_default e_required e_content e_text
    e_array e_link e_button e_image
    where e: "type_check E p key = Some e_type" "description_check p key = Some e_description"
      "name_check p key = Some e_name" "default_check p key = Some e_default"
      "required_check (field p ''rules'') key = Some e_required"
      "content_check (field p ''rules'') key = Some e_content"
      "text_check p (field p ''rules'') key = Some e_text"
      "array_node_check E p (field p ''rules'') key = Some e_array"
      "link_check p key = Some e_link" "button_check p key = Some e_button"
      "image_check p (field p ''rules'') key = Some e_image"
    and o: "own = e_type @ e_description @ e_name @ e_default @ e_required @ e_content @ e_text
           @ e_array @ e_link @ e_button @ e_image"
    by (rule node_diags_rulesE)
  have n: "filter ?P e_type = []" "filter ?P e_description = []" "filter ?P e_name = []"
    "filter ?P e_required = []" "filter ?P e_content = []" "filter ?P e_text = []"
    "filter ?P e_array = []"
    using e(1) [THEN type_check_emits] e(2) [THEN description_check_emits]
      e(3) [THEN name_check_emits] e(5) [THEN required_check_emits]
      e(6) [THEN content_check_emits] e(7) [THEN text_check_emits]
      e(8) [THEN array_node_check_emits]
    by (auto elim!: emits_filter)
  have d: "e_default = [warn ''Field default is required'' ''default'' key]"
    using e(4) assms(3,4) by (auto simp: default_check_def g)
  have l: "filter ?P e_link
      = (if ?t = Str ''link'' then [err ''Default is required for link fields'' ''default'' key]
         else [])"
    using e(9) assms(3) by (auto simp: link_check_def g err_def)
  have b: "filter ?P e_button
      = (if ?t = Str ''button'' then [err ''Default is required for link fields'' ''default'' key]
         else [])"
    using e(10) assms(3) by (auto simp: button_check_def g err_def)
  have i: "filter ?P e_image
      = (if ?t = Str ''image'' then [err ''Default is required for image fields'' ''default'' key]
         else [])"
  proof (cases "?t = Str ''image''")
    case False
    with e(11) show ?thesis by (simp add: image_check_def g)
  next
    case True
    with e(11) assms(3) obtain ds where ds: "dimensions_check (field p ''rules'') key = Some ds"
      and ei: "e_image = err ''Default is required for image fields'' ''default'' key # ds"
      by (auto simp: image_check_def g split: bind_splits)
    have "filter ?P ds = []"
      using ds [THEN dimensions_check_emits] by (auto elim!: emits_filter)
    with True ei show ?thesis by (simp add: err_def)
  qed
  have "filter ?P own
      = [warn ''Field default is required'' ''default'' key,
         err (if field p ''type'' = Str ''image'' then ''Default is required for image fields''
              else ''Default is required for link fields'') ''default'' key]"
    using assms(4) by (auto simp: o n d l b i warn_def)
  with v show ?thesis by blast
qed

theorem default_reported_twice_witness:
  "property_tree link_without_default \<and> truthy (field link_without_default ''rules'')
   \<and> field link_without_default ''default'' = Undefined
   \<and> field link_without_default ''type'' \<in> {Str ''link'', Str ''button'', Str ''image''}
   \<and> (\<exists>own. validateField example_env link_without_default ''more''
          = Some (own @ nested_diags example_env link_without_default)
        \<and> filter (\<lambda>d. attribute d = ''default'') own
          = [warn ''Field default is required'' ''default'' ''more'',
             err ''Default is required for link fields'' ''default'' ''more''])"
proof -
  have t: "property_tree link_without_default"
    by (simp add: link_without_default_def property_tree_unfold nested_fields_def
        coercions_return_def content_coercible_def items_coercible_def field_def)
  have r: "truthy (field link_without_default ''rules'')"
    by (simp add: link_without_default_def field_def)
  have d: "field link_without_default ''default'' = Undefined"
    by (simp add: link_without_default_def field_def)
  have a: "field link_without_default ''type'' = Str ''link''"
    by (simp add: link_without_default_def field_def)
  then have m: "field link_without_default ''type'' \<in> {Str ''link'', Str ''button'', Str ''image''}"
    by simp
  from default_reported_twice [OF t r d m, of example_env "''more''"] t r d m show ?thesis
    by (simp add: a)
qed

end
